theory Spec2Isabelle
  imports Main
begin

section \<open>Strings and numbers of the JavaScript runtime\<close>

text \<open>
  Strings are lists of characters. The texts that the program builds and takes apart itself
  are dates, numbers and hexadecimal colours, so the functions below act on the ASCII range.
  Label names are arbitrary text: \<open>String.prototype.toLowerCase\<close>, which folds every cased
  letter of Unicode, is not defined here. The label command takes it as the parameter
  \<open>toLowerCase\<close>, and what is proved of the command holds for every function in its place.
  A JavaScript number that may be \<open>NaN\<close> is an \<open>int option\<close>, with \<open>None\<close> for \<open>NaN\<close>; the
  program computes with whole numbers only.
\<close>

definition digit_char :: "nat \<Rightarrow> char" where
  "digit_char n = ''0123456789'' ! (n mod 10)"

fun String_nat :: "nat \<Rightarrow> string" where
  "String_nat n = (if n < 10 then [digit_char n] else String_nat (n div 10) @ [digit_char (n mod 10)])"

declare String_nat.simps [simp del]

definition String_int :: "int \<Rightarrow> string" where
  "String_int i = (if i < 0 then CHR ''-'' # String_nat (nat (- i)) else String_nat (nat i))"

definition String_number :: "int option \<Rightarrow> string" where
  "String_number x = (case x of None \<Rightarrow> ''NaN'' | Some i \<Rightarrow> String_int i)"

text \<open>\<open>s.padStart(n, "0")\<close>.\<close>

definition padStart :: "nat \<Rightarrow> string \<Rightarrow> string" where
  "padStart n s = replicate (n - length s) (CHR ''0'') @ s"

definition digit_val :: "char \<Rightarrow> nat option" where
  "digit_val c = (let n = (of_char c :: nat) in if 48 \<le> n \<and> n \<le> 57 then Some (n - 48) else None)"

text \<open>The value of a string of decimal digits read from the left; \<open>None\<close> if some character is no digit.\<close>

fun digits_val :: "nat \<Rightarrow> string \<Rightarrow> nat option" where
  "digits_val acc [] = Some acc"
| "digits_val acc (c # cs) = (case digit_val c of None \<Rightarrow> None | Some v \<Rightarrow> digits_val (10 * acc + v) cs)"

text \<open>\<open>s.replace(/^#/, "")\<close>: one leading \<open>#\<close> is removed, nothing else changes.\<close>

definition replace_leading_hash :: "string \<Rightarrow> string" where
  "replace_leading_hash s = (case s of [] \<Rightarrow> [] | c # cs \<Rightarrow> if c = CHR ''#'' then cs else s)"

definition is_space :: "char \<Rightarrow> bool" where
  "is_space c = (c = CHR '' '' \<or> c = CHR 0x09 \<or> c = CHR 0x0A \<or> c = CHR 0x0D)"

definition trim :: "string \<Rightarrow> string" where
  "trim s = rev (dropWhile is_space (rev (dropWhile is_space s)))"

definition hex_digit :: "nat \<Rightarrow> char" where
  "hex_digit n = ''0123456789ABCDEF'' ! (n mod 16)"

definition uri_unreserved :: "char \<Rightarrow> bool" where
  "uri_unreserved c =
     (let n = (of_char c :: nat) in
        (65 \<le> n \<and> n \<le> 90) \<or> (97 \<le> n \<and> n \<le> 122) \<or> (48 \<le> n \<and> n \<le> 57)
        \<or> c \<in> set ''-_.!~*()'' \<or> c = CHR 0x27)"

definition encodeURIComponent :: "string \<Rightarrow> string" where
  "encodeURIComponent s =
     concat (map (\<lambda>c. if uri_unreserved c then [c]
                       else [CHR ''%'', hex_digit ((of_char c :: nat) div 16), hex_digit ((of_char c :: nat) mod 16)]) s)"

text \<open>\<open>contains pat s\<close>: the text \<open>pat\<close> occurs in \<open>s\<close>.\<close>

fun starts_with :: "string \<Rightarrow> string \<Rightarrow> bool" where
  "starts_with [] s = True"
| "starts_with (p # ps) [] = False"
| "starts_with (p # ps) (c # cs) = (p = c \<and> starts_with ps cs)"

fun contains :: "string \<Rightarrow> string \<Rightarrow> bool" where
  "contains pat [] = (pat = [])"
| "contains pat (c # cs) = (starts_with pat (c # cs) \<or> contains pat cs)"

section \<open>Dates of the JavaScript runtime (ECMA-262, Date objects)\<close>

text \<open>
  A time value is a whole number of milliseconds since 1970-01-01T00:00:00Z. The functions
  below are the abstract operations of the language standard. \<open>YearFromTime\<close> is specified
  there as the largest year whose first day is not after the given day; here it is computed by a
  downward search from a year that is late enough. The range limit of time values
  (\<open>TimeClip\<close>, 8.64e15 ms either way) is not modelled: the claims are about four-digit years.
\<close>

definition msPerDay :: int where
  "msPerDay = 86400000"

definition Day :: "int \<Rightarrow> int" where
  "Day t = t div msPerDay"

definition TimeWithinDay :: "int \<Rightarrow> int" where
  "TimeWithinDay t = t mod msPerDay"

definition DaysInYear :: "int \<Rightarrow> int" where
  "DaysInYear y =
     (if y mod 4 \<noteq> 0 then 365 else if y mod 100 \<noteq> 0 then 366 else if y mod 400 \<noteq> 0 then 365 else 366)"

definition DayFromYear :: "int \<Rightarrow> int" where
  "DayFromYear y = 365 * (y - 1970) + (y - 1969) div 4 - (y - 1901) div 100 + (y - 1601) div 400"

function yearDown :: "int \<Rightarrow> int \<Rightarrow> int" where
  "yearDown y d = (if DayFromYear y \<le> d then y else yearDown (y - 1) d)"
  by pat_completeness auto
termination
proof (relation "measure (\<lambda>(y, d). nat (DayFromYear y - d))")
  show "wf (measure (\<lambda>(y, d). nat (DayFromYear y - d)))" by simp
next
  fix y d :: int
  assume late: "\<not> DayFromYear y \<le> d"
  have a: "(y - 1 - 1969) div 4 \<le> (y - 1969) div 4" by (rule zdiv_mono1) simp_all
  have c: "(y - 1 - 1601) div 400 \<le> (y - 1601) div 400" by (rule zdiv_mono1) simp_all
  have "(y - 1901 - 100) div 100 \<le> (y - 1 - 1901) div 100" by (rule zdiv_mono1) simp_all
  moreover have "(y - 1901 - 100) div 100 = (y - 1901) div 100 - 1"
    using div_mult_self1 [of 100 "y - 1901" "- 1"] by simp
  ultimately have b: "(y - 1901) div 100 - 1 \<le> (y - 1 - 1901) div 100" by simp
  have "DayFromYear (y - 1) < DayFromYear y"
    unfolding DayFromYear_def using a b c by simp
  with late show "((y - 1, d), (y, d)) \<in> measure (\<lambda>(y, d). nat (DayFromYear y - d))"
    by simp
qed

declare yearDown.simps [simp del]

definition YearFromTime :: "int \<Rightarrow> int" where
  "YearFromTime t =
     (let d = Day t in yearDown (1970 + (if 0 \<le> d then d div 365 else d div 366)) d)"

definition InLeapYear :: "int \<Rightarrow> int" where
  "InLeapYear t = (if DaysInYear (YearFromTime t) = 366 then 1 else 0)"

definition DayWithinYear :: "int \<Rightarrow> int" where
  "DayWithinYear t = Day t - DayFromYear (YearFromTime t)"

definition MonthFromTime :: "int \<Rightarrow> int" where
  "MonthFromTime t =
     (let d = DayWithinYear t; l = InLeapYear t in
        if d < 31 then 0 else if d < 59 + l then 1 else if d < 90 + l then 2
        else if d < 120 + l then 3 else if d < 151 + l then 4 else if d < 181 + l then 5
        else if d < 212 + l then 6 else if d < 243 + l then 7 else if d < 273 + l then 8
        else if d < 304 + l then 9 else if d < 334 + l then 10 else 11)"

definition DateFromTime :: "int \<Rightarrow> int" where
  "DateFromTime t =
     (let d = DayWithinYear t; l = InLeapYear t; m = MonthFromTime t in
        if m = 0 then d + 1 else if m = 1 then d - 30 else if m = 2 then d - 58 - l
        else if m = 3 then d - 89 - l else if m = 4 then d - 119 - l else if m = 5 then d - 150 - l
        else if m = 6 then d - 180 - l else if m = 7 then d - 211 - l else if m = 8 then d - 242 - l
        else if m = 9 then d - 272 - l else if m = 10 then d - 303 - l else d - 333 - l)"

definition WeekDay :: "int \<Rightarrow> int" where
  "WeekDay t = (Day t + 4) mod 7"

text \<open>The number of days of a year before its month \<open>m\<close> (0 to 11), \<open>l\<close> being 1 in a leap year.\<close>

definition daysBeforeMonth :: "int \<Rightarrow> int \<Rightarrow> int" where
  "daysBeforeMonth m l =
     (if m = 0 then 0 else if m = 1 then 31 else if m = 2 then 59 + l else if m = 3 then 90 + l
      else if m = 4 then 120 + l else if m = 5 then 151 + l else if m = 6 then 181 + l
      else if m = 7 then 212 + l else if m = 8 then 243 + l else if m = 9 then 273 + l
      else if m = 10 then 304 + l else 334 + l)"

definition MakeDay :: "int \<Rightarrow> int \<Rightarrow> int \<Rightarrow> int" where
  "MakeDay year month date =
     (let ym = year + month div 12; mn = month mod 12 in
        DayFromYear ym + daysBeforeMonth mn (if DaysInYear ym = 366 then 1 else 0) + date - 1)"

definition MakeTime :: "int \<Rightarrow> int \<Rightarrow> int \<Rightarrow> int \<Rightarrow> int" where
  "MakeTime hour minute sec ms = hour * 3600000 + minute * 60000 + sec * 1000 + ms"

definition MakeDate :: "int \<Rightarrow> int \<Rightarrow> int" where
  "MakeDate day time = day * msPerDay + time"

section \<open>The environment of the process\<close>

text \<open>
  Two things the program reads are not part of it: the time zone of the process, which the
  \<open>Date\<close> operations on local time use, and the time zone database behind
  \<open>toLocaleString\<close>. \<open>LocalTZA env t isUTC\<close> is the abstract operation of the standard:
  the offset of the process's zone in milliseconds, at the instant \<open>t\<close> when \<open>isUTC\<close> holds
  and at the local wall-clock time \<open>t\<close> otherwise. \<open>timeZoneOffset env z\<close> gives the offset of
  the named zone at an instant, or \<open>None\<close> when the runtime does not know the name.
\<close>

record environment =
  LocalTZA :: "int \<Rightarrow> bool \<Rightarrow> int"
  timeZoneOffset :: "string \<Rightarrow> (int \<Rightarrow> int) option"

definition LocalTime :: "environment \<Rightarrow> int \<Rightarrow> int" where
  "LocalTime env t = t + LocalTZA env t True"

definition UTC :: "environment \<Rightarrow> int \<Rightarrow> int" where
  "UTC env t = t - LocalTZA env t False"

datatype error = Error (message: string) | RangeError (message: string) | SyntaxError (message: string)

text \<open>A \<open>Date\<close> object is its time value, \<open>None\<close> for an invalid date.\<close>

type_synonym Date = "int option"

definition getFullYear :: "environment \<Rightarrow> Date \<Rightarrow> int option" where
  "getFullYear env date = map_option (\<lambda>t. YearFromTime (LocalTime env t)) date"

definition getMonth :: "environment \<Rightarrow> Date \<Rightarrow> int option" where
  "getMonth env date = map_option (\<lambda>t. MonthFromTime (LocalTime env t)) date"

definition getDate :: "environment \<Rightarrow> Date \<Rightarrow> int option" where
  "getDate env date = map_option (\<lambda>t. DateFromTime (LocalTime env t)) date"

definition getDay :: "environment \<Rightarrow> Date \<Rightarrow> int option" where
  "getDay env date = map_option (\<lambda>t. WeekDay (LocalTime env t)) date"

definition setDate :: "environment \<Rightarrow> Date \<Rightarrow> int option \<Rightarrow> Date" where
  "setDate env date dt =
     (case (date, dt) of
        (Some t, Some n) \<Rightarrow>
          (let lt = LocalTime env t;
               newDate = MakeDate (MakeDay (YearFromTime lt) (MonthFromTime lt) n) (TimeWithinDay lt)
           in Some (UTC env newDate))
      | _ \<Rightarrow> None)"

text \<open>\<open>new Date(year, month, day)\<close>: local midnight; a year from 0 to 99 means 1900 + year.\<close>

definition Date_of_fields :: "environment \<Rightarrow> int option \<Rightarrow> int \<Rightarrow> int \<Rightarrow> Date" where
  "Date_of_fields env year month day =
     (case year of None \<Rightarrow> None
      | Some y \<Rightarrow> (let yr = (if 0 \<le> y \<and> y \<le> 99 then 1900 + y else y)
                   in Some (UTC env (MakeDate (MakeDay yr month day) 0))))"

text \<open>
  \<open>new Date(string)\<close> for the two shapes the program builds, \<open>YYYY-MM-DDTHH:mm:ss\<close> (local
  time) and \<open>YYYY-MM-DDTHH:mm:ssZ\<close> (UTC), with the field ranges of the standard's date-time
  format. A day of 29 to 31 in a shorter month is carried into the next month, as Node does.
  Any other text is an invalid date.
\<close>

definition parseIsoDate :: "string \<Rightarrow> (int \<times> int \<times> int) option" where
  "parseIsoDate s =
     (if length s = 10 \<and> s ! 4 = CHR ''-'' \<and> s ! 7 = CHR ''-'' then
        (case (digits_val 0 (take 4 s), digits_val 0 (take 2 (drop 5 s)), digits_val 0 (drop 8 s)) of
           (Some y, Some m, Some d) \<Rightarrow>
             if 1 \<le> m \<and> m \<le> 12 \<and> 1 \<le> d \<and> d \<le> 31 then Some (int y, int m, int d) else None
         | _ \<Rightarrow> None)
      else None)"

definition parseIsoTime :: "string \<Rightarrow> (int \<times> bool) option" where
  "parseIsoTime s =
     (if (length s = 9 \<or> (length s = 10 \<and> s ! 9 = CHR ''Z''))
         \<and> s ! 0 = CHR ''T'' \<and> s ! 3 = CHR '':'' \<and> s ! 6 = CHR '':'' then
        (case (digits_val 0 (take 2 (drop 1 s)), digits_val 0 (take 2 (drop 4 s)), digits_val 0 (take 2 (drop 7 s))) of
           (Some h, Some mi, Some sec) \<Rightarrow>
             if h \<le> 23 \<and> mi \<le> 59 \<and> sec \<le> 59
             then Some (MakeTime (int h) (int mi) (int sec) 0, length s = 10) else None
         | _ \<Rightarrow> None)
      else None)"

definition Date_parse :: "environment \<Rightarrow> string \<Rightarrow> Date" where
  "Date_parse env s =
     (case (parseIsoDate (take 10 s), parseIsoTime (drop 10 s)) of
        (Some (y, m, d), Some (time, isUtc)) \<Rightarrow>
          (let t = MakeDate (MakeDay y (m - 1) d) time in Some (if isUtc then t else UTC env t))
      | _ \<Rightarrow> None)"

text \<open>
  \<open>date.toLocaleString("en-US", { timeZone })\<close> writes the wall-clock reading of the instant
  in the named zone, to the second, without naming the zone; an unknown zone name raises a
  \<open>RangeError\<close>. The text is modelled by the reading it denotes, in milliseconds.
  \<open>new Date(text)\<close> then reads it back as a local time of the process.
\<close>

definition toLocaleString :: "environment \<Rightarrow> Date \<Rightarrow> string \<Rightarrow> error + int option" where
  "toLocaleString env date timeZone =
     (case timeZoneOffset env timeZone of
        None \<Rightarrow> Inl (RangeError (''Invalid time zone specified: '' @ timeZone))
      | Some off \<Rightarrow> Inr (map_option (\<lambda>t. (t + off t) - (t + off t) mod 1000) date))"

definition Date_of_locale_string :: "environment \<Rightarrow> int option \<Rightarrow> Date" where
  "Date_of_locale_string env reading = map_option (UTC env) reading"

definition toISOString :: "int \<Rightarrow> string" where
  "toISOString t =
     (let y = YearFromTime t; tw = TimeWithinDay t;
          year = (if 0 \<le> y \<and> y \<le> 9999 then padStart 4 (String_int y)
                  else (if y < 0 then ''-'' else ''+'') @ padStart 6 (String_int (abs y)))
      in year @ ''-'' @ padStart 2 (String_int (MonthFromTime t + 1)) @ ''-''
         @ padStart 2 (String_int (DateFromTime t)) @ ''T''
         @ padStart 2 (String_int (tw div 3600000)) @ '':''
         @ padStart 2 (String_int (tw div 60000 mod 60)) @ '':''
         @ padStart 2 (String_int (tw div 1000 mod 60)) @ ''.''
         @ padStart 3 (String_int (tw mod 1000)) @ ''Z'')"

text \<open>\<open>s.replace(/\.\d{3}Z$/, "Z")\<close>.\<close>

definition replace_millis :: "string \<Rightarrow> string" where
  "replace_millis s =
     (let n = length s in
        if 5 \<le> n \<and> s ! (n - 5) = CHR ''.'' \<and> digit_val (s ! (n - 4)) \<noteq> None
           \<and> digit_val (s ! (n - 3)) \<noteq> None \<and> digit_val (s ! (n - 2)) \<noteq> None \<and> s ! (n - 1) = CHR ''Z''
        then take (n - 5) s @ ''Z'' else s)"

section \<open>milestones.ts: dates of the weekly schedule\<close>

definition addDays :: "environment \<Rightarrow> Date \<Rightarrow> int \<Rightarrow> Date" where
  "addDays env date days =
     (let result = date in setDate env result (map_option (\<lambda>d. d + days) (getDate env result)))"

definition formatDate :: "environment \<Rightarrow> Date \<Rightarrow> string" where
  "formatDate env date =
     (let y = getFullYear env date;
          m = padStart 2 (String_number (map_option (\<lambda>m. m + 1) (getMonth env date)));
          d = padStart 2 (String_number (getDate env date))
      in String_number y @ ''-'' @ m @ ''-'' @ d)"

definition sundayWeekOfYear :: "environment \<Rightarrow> Date \<Rightarrow> int option" where
  "sundayWeekOfYear env date =
     (let jan1 = Date_of_fields env (getFullYear env date) 0 1;
          firstSunday = (case getDay env jan1 of None \<Rightarrow> None
                         | Some wd \<Rightarrow> addDays env jan1 ((7 - wd) mod 7))
      in case (date, firstSunday) of
           (Some t, Some f) \<Rightarrow> (let diffMs = t - f in Some (diffMs div (7 * 24 * 60 * 60 * 1000) + 1))
         | _ \<Rightarrow> None)"

text \<open>
  \<open>toUtcDueOn\<close> in two steps: the time value of the \<open>Date\<close> it builds, and the text made of
  it. \<open>toISOString\<close> raises a \<open>RangeError\<close> on an invalid date.
\<close>

definition toUtcDueOn_time :: "environment \<Rightarrow> string \<Rightarrow> string \<Rightarrow> error + Date" where
  "toUtcDueOn_time env dateStr timezone =
     (let utcRef = Date_parse env (dateStr @ ''T23:59:59Z'') in
      case toLocaleString env utcRef ''UTC'' of
        Inl e \<Rightarrow> Inl e
      | Inr utcText \<Rightarrow>
          (let utcRepr = Date_of_locale_string env utcText in
           case toLocaleString env utcRef timezone of
             Inl e \<Rightarrow> Inl e
           | Inr tzText \<Rightarrow>
               (let tzRepr = Date_of_locale_string env tzText in
                case (utcRef, utcRepr, tzRepr) of
                  (Some r, Some u, Some z) \<Rightarrow> (let offsetMs = z - u in Inr (Some (r - offsetMs)))
                | _ \<Rightarrow> Inr None)))"

definition toUtcDueOn :: "environment \<Rightarrow> string \<Rightarrow> string \<Rightarrow> error + string" where
  "toUtcDueOn env dateStr timezone =
     (case toUtcDueOn_time env dateStr timezone of
        Inl e \<Rightarrow> Inl e
      | Inr None \<Rightarrow> Inl (RangeError ''Invalid time value'')
      | Inr (Some t) \<Rightarrow> Inr (replace_millis (toISOString t)))"

text \<open>
  The older revision of \<open>milestones.ts\<close> kept in the same file has no time zone: the due time
  is the configured \<open>dueTime\<close>, or the literal \<open>14:59:59Z\<close>.
\<close>

definition dueOn_fixed :: "string option \<Rightarrow> string \<Rightarrow> string" where
  "dueOn_fixed configDueTime endDateStr =
     (let dueTime = (case configDueTime of None \<Rightarrow> ''14:59:59Z'' | Some d \<Rightarrow> d)
      in endDateStr @ ''T'' @ dueTime)"


section \<open>github.ts: the gateway to the \<open>gh\<close> command\<close>

datatype json =
    JNull
  | JBool bool
  | JNumber int
  | JString string
  | JArray "json list"
  | JObject "(string \<times> json) list"

text \<open>\<open>Array.prototype.flat()\<close>: one level; an element that is no array stays in its place.\<close>

definition flat :: "json list \<Rightarrow> json list" where
  "flat xs = concat (map (\<lambda>x. case x of JArray ys \<Rightarrow> ys | _ \<Rightarrow> [x]) xs)"

text \<open>
  What the subprocess writes on its standard output: nothing, a text that is not JSON, or the
  text of a JSON value. A JSON text is identified with the value it denotes, so
  \<open>JSON.parse\<close> and \<open>JSON.stringify\<close> do not appear.
\<close>

datatype stdout_text = NoOutput | Malformed | JsonText json

record exec_result =
  exec_error :: "string option"
  stdout :: stdout_text
  stderr :: string

record api_call =
  httpMethod :: string
  endpoint :: string
  body :: "(string \<times> json) list option"
  paginate :: bool

record invocation =
  args :: "string list"
  stdin :: "json option"

text \<open>
  The \<open>gh\<close> command is outside the program: its answer to an invocation may depend on the
  invocations before it.
\<close>

type_synonym gh_process = "invocation list \<Rightarrow> invocation \<Rightarrow> exec_result"

definition gh_args :: "api_call \<Rightarrow> string list" where
  "gh_args c =
     (let args0 = [''api'', ''--method'', httpMethod c, ''-H'', ''Accept: application/vnd.github+json'', endpoint c];
          args1 = (if paginate c then take 1 args0 @ [''--paginate'', ''--slurp''] @ drop 1 args0 else args0)
      in if body c \<noteq> None then args1 @ [''--input'', ''-''] else args1)"

definition invocation_of :: "api_call \<Rightarrow> invocation" where
  "invocation_of c = \<lparr>args = gh_args c, stdin = map_option JObject (body c)\<rparr>"

text \<open>\<open>ghApi\<close> returns its result and the calls made so far, the new one added at the end.\<close>

definition ghApi :: "gh_process \<Rightarrow> api_call list \<Rightarrow> api_call \<Rightarrow> (error + stdout_text) \<times> api_call list" where
  "ghApi gh calls c =
     (let r = gh (map invocation_of calls) (invocation_of c);
          calls' = calls @ [c]
      in case exec_error r of
           Some msg \<Rightarrow> (Inl (Error (if trim (stderr r) \<noteq> [] then trim (stderr r) else msg)), calls')
         | None \<Rightarrow>
             (let raw = stdout r in
              if paginate c \<and> raw \<noteq> NoOutput then
                (case raw of
                   JsonText (JArray (JArray page # pages)) \<Rightarrow>
                     (Inr (JsonText (JArray (flat (JArray page # pages)))), calls')
                 | JsonText parsed \<Rightarrow> (Inr raw, calls')
                 | _ \<Rightarrow> (Inl (SyntaxError ''Unexpected token in JSON''), calls'))
              else (Inr raw, calls')))"

definition await_void :: "(error + stdout_text) \<times> api_call list \<Rightarrow> (error + unit) \<times> api_call list" where
  "await_void r = (case r of (Inl e, calls) \<Rightarrow> (Inl e, calls) | (Inr out, calls) \<Rightarrow> (Inr (), calls))"

record Milestone =
  number :: int
  title :: string
  m_description :: "string option"
  due_on :: "string option"
  state :: string

definition createMilestone_call :: "string \<Rightarrow> string \<Rightarrow> string \<Rightarrow> string \<Rightarrow> api_call" where
  "createMilestone_call = (\<lambda>repo title description dueOn.
     \<lparr>httpMethod = ''POST'', endpoint = ''/repos/'' @ repo @ ''/milestones'',
      body = Some [(''title'', JString title), (''description'', JString description), (''due_on'', JString dueOn)],
      paginate = False\<rparr>)"

definition createMilestone ::
  "gh_process \<Rightarrow> api_call list \<Rightarrow> string \<Rightarrow> string \<Rightarrow> string \<Rightarrow> string \<Rightarrow> (error + unit) \<times> api_call list" where
  "createMilestone gh calls = (\<lambda>repo title description dueOn.
     await_void (ghApi gh calls (createMilestone_call repo title description dueOn)))"

definition updateMilestone_call :: "string \<Rightarrow> int \<Rightarrow> string \<Rightarrow> string \<Rightarrow> api_call" where
  "updateMilestone_call = (\<lambda>repo number title description.
     \<lparr>httpMethod = ''PATCH'', endpoint = ''/repos/'' @ repo @ ''/milestones/'' @ String_int number,
      body = Some [(''title'', JString title), (''description'', JString description)],
      paginate = False\<rparr>)"

definition updateMilestone ::
  "gh_process \<Rightarrow> api_call list \<Rightarrow> string \<Rightarrow> int \<Rightarrow> string \<Rightarrow> string \<Rightarrow> (error + unit) \<times> api_call list" where
  "updateMilestone gh calls = (\<lambda>repo number title description.
     await_void (ghApi gh calls (updateMilestone_call repo number title description)))"

text \<open>
  A desired label (\<open>LabelConfig\<close>, \<open>description\<close> optional) and a remote label (\<open>Label\<close>,
  \<open>description\<close> nullable) have the same fields.
\<close>

record Label =
  name :: string
  color :: string
  description :: "string option"

type_synonym LabelConfig = Label

definition createLabel_call :: "string \<Rightarrow> string \<Rightarrow> string \<Rightarrow> string \<Rightarrow> api_call" where
  "createLabel_call = (\<lambda>repo name color description.
     \<lparr>httpMethod = ''POST'', endpoint = ''/repos/'' @ repo @ ''/labels'',
      body = Some [(''name'', JString name), (''color'', JString color), (''description'', JString description)],
      paginate = False\<rparr>)"

definition createLabel ::
  "gh_process \<Rightarrow> api_call list \<Rightarrow> string \<Rightarrow> string \<Rightarrow> string \<Rightarrow> string \<Rightarrow> (error + unit) \<times> api_call list" where
  "createLabel gh calls = (\<lambda>repo name color description.
     await_void (ghApi gh calls (createLabel_call repo name color description)))"

definition updateLabel_call :: "string \<Rightarrow> string \<Rightarrow> string \<Rightarrow> string \<Rightarrow> api_call" where
  "updateLabel_call = (\<lambda>repo name color description.
     \<lparr>httpMethod = ''PATCH'', endpoint = ''/repos/'' @ repo @ ''/labels/'' @ encodeURIComponent name,
      body = Some [(''color'', JString color), (''description'', JString description)],
      paginate = False\<rparr>)"

definition updateLabel ::
  "gh_process \<Rightarrow> api_call list \<Rightarrow> string \<Rightarrow> string \<Rightarrow> string \<Rightarrow> string \<Rightarrow> (error + unit) \<times> api_call list" where
  "updateLabel gh calls = (\<lambda>repo name color description.
     await_void (ghApi gh calls (updateLabel_call repo name color description)))"

definition deleteLabel_call :: "string \<Rightarrow> string \<Rightarrow> api_call" where
  "deleteLabel_call = (\<lambda>repo name.
     \<lparr>httpMethod = ''DELETE'', endpoint = ''/repos/'' @ repo @ ''/labels/'' @ encodeURIComponent name,
      body = None, paginate = False\<rparr>)"

definition deleteLabel :: "gh_process \<Rightarrow> api_call list \<Rightarrow> string \<Rightarrow> string \<Rightarrow> (error + unit) \<times> api_call list" where
  "deleteLabel gh calls = (\<lambda>repo name. await_void (ghApi gh calls (deleteLabel_call repo name)))"

text \<open>The counters and the failure list that both commands keep while they apply changes.\<close>

record summary =
  createdCount :: nat
  updatedCount :: nat
  failedCount :: nat
  failures :: "(string \<times> string) list"

definition summary0 :: summary where
  "summary0 = \<lparr>createdCount = 0, updatedCount = 0, failedCount = 0, failures = []\<rparr>"

text \<open>
  One item of either apply loop: the \<open>try\<close> block makes one gateway call and counts it, the
  \<open>catch\<close> block records the item's key with the message of the error and goes on.
\<close>

definition try_create :: "string \<Rightarrow> (error + unit) \<times> api_call list \<Rightarrow> summary \<Rightarrow> summary \<times> api_call list" where
  "try_create key r s =
     (case r of
        (Inr u, calls) \<Rightarrow> (s\<lparr>createdCount := createdCount s + 1\<rparr>, calls)
      | (Inl e, calls) \<Rightarrow> (s\<lparr>failures := failures s @ [(key, message e)], failedCount := failedCount s + 1\<rparr>, calls))"

definition try_update :: "string \<Rightarrow> (error + unit) \<times> api_call list \<Rightarrow> summary \<Rightarrow> summary \<times> api_call list" where
  "try_update key r s =
     (case r of
        (Inr u, calls) \<Rightarrow> (s\<lparr>updatedCount := updatedCount s + 1\<rparr>, calls)
      | (Inl e, calls) \<Rightarrow> (s\<lparr>failures := failures s @ [(key, message e)], failedCount := failedCount s + 1\<rparr>, calls))"

section \<open>milestones.ts: index of the remote milestones and the apply loop\<close>

definition duplicate_warning :: "string \<Rightarrow> Milestone \<Rightarrow> int \<Rightarrow> string" where
  "duplicate_warning dateKey m previous =
     ''Duplicate due_on date '' @ dateKey @ '': milestone #'' @ String_int (number m)
       @ '' ('' @ [CHR 0x22] @ title m @ [CHR 0x22] @ '') overwrites #'' @ String_int previous"

definition index_milestone :: "(string \<rightharpoonup> int) \<times> string list \<Rightarrow> Milestone \<Rightarrow> (string \<rightharpoonup> int) \<times> string list" where
  "index_milestone acc m =
     (case acc of (existingMap, warnings) \<Rightarrow>
        (case due_on m of
           None \<Rightarrow> (existingMap, warnings)
         | Some due \<Rightarrow>
             if due = [] then (existingMap, warnings)
             else (let dateKey = take 10 due;
                       warnings' = (case existingMap dateKey of
                                      Some previous \<Rightarrow> warnings @ [duplicate_warning dateKey m previous]
                                    | None \<Rightarrow> warnings)
                   in (existingMap(dateKey \<mapsto> number m), warnings'))))"

definition index_milestones :: "Milestone list \<Rightarrow> (string \<rightharpoonup> int) \<times> string list" where
  "index_milestones existing = foldl index_milestone (Map.empty, []) existing"

text \<open>The values of one pass of the loop body, before its gateway call.\<close>

record descriptor =
  d_title :: string
  d_description :: string
  d_endDateStr :: string
  d_dueOn :: string

definition week_descriptor :: "environment \<Rightarrow> string \<Rightarrow> string \<Rightarrow> int \<Rightarrow> error + descriptor" where
  "week_descriptor env startDate timezone i =
     (let weekStart = addDays env (Date_parse env (startDate @ ''T00:00:00'')) (i * 7);
          weekEnd = addDays env weekStart 6;
          weekNum = sundayWeekOfYear env weekStart;
          endDateStr = formatDate env weekEnd;
          title = ''Week '' @ String_number weekNum @ '': '' @ endDateStr;
          description = ''Period: '' @ formatDate env weekStart @ '' - '' @ endDateStr
      in case toUtcDueOn env endDateStr timezone of
           Inl e \<Rightarrow> Inl e
         | Inr dueOn \<Rightarrow>
             Inr \<lparr>d_title = title, d_description = description, d_endDateStr = endDateStr, d_dueOn = dueOn\<rparr>)"

text \<open>\<open>if (existingNumber)\<close>: a number counts as present when it is defined and not zero.\<close>

definition apply_milestone ::
  "gh_process \<Rightarrow> string \<Rightarrow> (string \<rightharpoonup> int) \<Rightarrow> descriptor \<Rightarrow> summary \<times> api_call list \<Rightarrow> summary \<times> api_call list" where
  "apply_milestone gh repo existingMap d acc =
     (case acc of (s, calls) \<Rightarrow>
        (case existingMap (d_endDateStr d) of
           Some existingNumber \<Rightarrow>
             if existingNumber \<noteq> 0
             then try_update (d_title d) (updateMilestone gh calls repo existingNumber (d_title d) (d_description d)) s
             else try_create (d_title d) (createMilestone gh calls repo (d_title d) (d_description d) (d_dueOn d)) s
         | None \<Rightarrow> try_create (d_title d) (createMilestone gh calls repo (d_title d) (d_description d) (d_dueOn d)) s))"

text \<open>
  The loop \<open>for (let i = 0; i < weeks; i++)\<close>, here from \<open>i\<close> on with \<open>n\<close> passes left. An
  error raised outside the \<open>try\<close> block ends the whole command.
\<close>

fun milestones_loop ::
  "environment \<Rightarrow> gh_process \<Rightarrow> string \<Rightarrow> string \<Rightarrow> string \<Rightarrow> (string \<rightharpoonup> int) \<Rightarrow> int \<Rightarrow> nat
     \<Rightarrow> summary \<times> api_call list \<Rightarrow> error + summary \<times> api_call list" where
  "milestones_loop env gh repo startDate timezone existingMap i 0 acc = Inr acc"
| "milestones_loop env gh repo startDate timezone existingMap i (Suc n) acc =
     (case week_descriptor env startDate timezone i of
        Inl e \<Rightarrow> Inl e
      | Inr d \<Rightarrow> milestones_loop env gh repo startDate timezone existingMap (i + 1) n
                  (apply_milestone gh repo existingMap d acc))"

definition milestones_apply ::
  "environment \<Rightarrow> gh_process \<Rightarrow> string \<Rightarrow> string \<Rightarrow> nat \<Rightarrow> string \<Rightarrow> Milestone list
     \<Rightarrow> error + summary \<times> api_call list" where
  "milestones_apply env gh repo startDate weeks timezone existing =
     (let existingMap = fst (index_milestones existing)
      in milestones_loop env gh repo startDate timezone existingMap 0 weeks (summary0, []))"

section \<open>labels.ts: the diff and the apply loops\<close>

text \<open>
  \<open>toLowerCase\<close> stands for \<open>String.prototype.toLowerCase\<close>; it is a parameter of the diff.
\<close>

definition existingMap_of :: "(string \<Rightarrow> string) \<Rightarrow> Label list \<Rightarrow> (string \<rightharpoonup> Label)" where
  "existingMap_of toLowerCase existingLabels =
     foldl (\<lambda>m l. m(toLowerCase (name l) \<mapsto> l)) Map.empty existingLabels"

datatype classification = Create | Update | Unchanged

definition nullish :: "string option \<Rightarrow> string" where
  "nullish d = (case d of None \<Rightarrow> [] | Some s \<Rightarrow> s)"

definition classify :: "(string \<Rightarrow> string) \<Rightarrow> (string \<rightharpoonup> Label) \<Rightarrow> LabelConfig \<Rightarrow> classification" where
  "classify toLowerCase existingMap desired =
     (case existingMap (toLowerCase (name desired)) of
        None \<Rightarrow> Create
      | Some existing \<Rightarrow>
          (let colorChanged = (color existing \<noteq> replace_leading_hash (color desired));
               descChanged = (nullish (description existing) \<noteq> nullish (description desired))
           in if colorChanged \<or> descChanged then Update else Unchanged))"

record plan =
  toCreate :: "LabelConfig list"
  toUpdate :: "LabelConfig list"
  unchanged :: nat

definition diff_step :: "(string \<Rightarrow> string) \<Rightarrow> (string \<rightharpoonup> Label) \<Rightarrow> plan \<Rightarrow> LabelConfig \<Rightarrow> plan" where
  "diff_step toLowerCase existingMap p desired =
     (case classify toLowerCase existingMap desired of
        Create \<Rightarrow> p\<lparr>toCreate := toCreate p @ [desired]\<rparr>
      | Update \<Rightarrow> p\<lparr>toUpdate := toUpdate p @ [desired]\<rparr>
      | Unchanged \<Rightarrow> p\<lparr>unchanged := unchanged p + 1\<rparr>)"

definition labels_diff :: "(string \<Rightarrow> string) \<Rightarrow> LabelConfig list \<Rightarrow> Label list \<Rightarrow> plan" where
  "labels_diff toLowerCase desiredLabels existingLabels =
     foldl (diff_step toLowerCase (existingMap_of toLowerCase existingLabels))
       \<lparr>toCreate = [], toUpdate = [], unchanged = 0\<rparr> desiredLabels"

definition apply_create :: "gh_process \<Rightarrow> string \<Rightarrow> summary \<times> api_call list \<Rightarrow> LabelConfig \<Rightarrow> summary \<times> api_call list" where
  "apply_create gh repo acc l =
     (case acc of (s, calls) \<Rightarrow>
        try_create (name l)
          (createLabel gh calls repo (name l) (replace_leading_hash (color l)) (nullish (description l))) s)"

definition apply_update :: "gh_process \<Rightarrow> string \<Rightarrow> summary \<times> api_call list \<Rightarrow> LabelConfig \<Rightarrow> summary \<times> api_call list" where
  "apply_update gh repo acc l =
     (case acc of (s, calls) \<Rightarrow>
        try_update (name l)
          (updateLabel gh calls repo (name l) (replace_leading_hash (color l)) (nullish (description l))) s)"

definition labels_apply :: "gh_process \<Rightarrow> string \<Rightarrow> plan \<Rightarrow> summary \<times> api_call list" where
  "labels_apply gh repo p =
     foldl (apply_update gh repo) (foldl (apply_create gh repo) (summary0, []) (toCreate p)) (toUpdate p)"

text \<open>
  The command from the diff on: nothing is sent when there is nothing to do or when the user
  does not confirm.
\<close>

definition labels_sync ::
  "(string \<Rightarrow> string) \<Rightarrow> gh_process \<Rightarrow> string \<Rightarrow> LabelConfig list \<Rightarrow> Label list \<Rightarrow> bool
     \<Rightarrow> summary \<times> api_call list" where
  "labels_sync toLowerCase gh repo desiredLabels existingLabels confirmed =
     (let p = labels_diff toLowerCase desiredLabels existingLabels
      in if toCreate p = [] \<and> toUpdate p = [] then (summary0, [])
         else if \<not> confirmed then (summary0, [])
         else labels_apply gh repo p)"


section \<open>Vocabulary of the properties\<close>

text \<open>
  \<open>call_failed gh calls k\<close>: the \<open>k\<close>-th call of the run ended with an error of the
  subprocess, which is the only way a call without pagination fails.
\<close>

definition call_failed :: "gh_process \<Rightarrow> api_call list \<Rightarrow> nat \<Rightarrow> bool" where
  "call_failed gh calls k =
     (exec_error (gh (map invocation_of (take k calls)) (invocation_of (calls ! k))) \<noteq> None)"

definition failed_calls :: "gh_process \<Rightarrow> api_call list \<Rightarrow> nat list" where
  "failed_calls gh calls = filter (call_failed gh calls) [0..<length calls]"

text \<open>
  The counters account for every call made: each call was counted once, as created, updated
  or failed, and every failure is in the list.
\<close>

definition accounted :: "gh_process \<Rightarrow> summary \<times> api_call list \<Rightarrow> bool" where
  "accounted gh acc =
     (case acc of (s, calls) \<Rightarrow>
        createdCount s + updatedCount s + failedCount s = length calls
        \<and> length (failures s) = failedCount s
        \<and> failedCount s = length (failed_calls gh calls))"

definition body_keys :: "api_call \<Rightarrow> string list" where
  "body_keys c = (case body c of None \<Rightarrow> [] | Some b \<Rightarrow> map fst b)"

text \<open>The call that \<open>apply_milestone\<close> makes for a descriptor.\<close>

definition milestone_call :: "string \<Rightarrow> (string \<rightharpoonup> int) \<Rightarrow> descriptor \<Rightarrow> api_call" where
  "milestone_call repo existingMap d =
     (case existingMap (d_endDateStr d) of
        Some existingNumber \<Rightarrow>
          if existingNumber \<noteq> 0
          then updateMilestone_call repo existingNumber (d_title d) (d_description d)
          else createMilestone_call repo (d_title d) (d_description d) (d_dueOn d)
      | None \<Rightarrow> createMilestone_call repo (d_title d) (d_description d) (d_dueOn d))"

text \<open>The calls that the two label loops make for a label.\<close>

definition label_create_call :: "string \<Rightarrow> LabelConfig \<Rightarrow> api_call" where
  "label_create_call repo l =
     createLabel_call repo (name l) (replace_leading_hash (color l)) (nullish (description l))"

definition label_update_call :: "string \<Rightarrow> LabelConfig \<Rightarrow> api_call" where
  "label_update_call repo l =
     updateLabel_call repo (name l) (replace_leading_hash (color l)) (nullish (description l))"

text \<open>The key under which a remote milestone enters the index, if it has a due date.\<close>

definition date_key :: "Milestone \<Rightarrow> string option" where
  "date_key m = (case due_on m of None \<Rightarrow> None | Some due \<Rightarrow> if due = [] then None else Some (take 10 due))"

text \<open>The elements of a JSON array; no elements for any other value.\<close>

definition items :: "json \<Rightarrow> json list" where
  "items v = (case v of JArray xs \<Rightarrow> xs | _ \<Rightarrow> [])"

definition is_array :: "json \<Rightarrow> bool" where
  "is_array v = (case v of JArray xs \<Rightarrow> True | _ \<Rightarrow> False)"




text \<open>
  The \<open>Date\<close> operations of the schedule go from a local time of the process to the instant
  and back. \<open>keeps_day env S n\<close>: a local time on day \<open>n\<close> at a time of day of \<open>S\<close> (in
  milliseconds from midnight) comes back on day \<open>n\<close>, at a time of day of \<open>S\<close>. With
  \<open>S = {0}\<close> this says that the local midnight of day \<open>n\<close> exists in the zone of the process.
  Where the clocks go forward by an hour at midnight, that midnight comes back as one
  o'clock, and \<open>S = {0, 3600000}\<close> is kept.
\<close>

definition keeps_day :: "environment \<Rightarrow> int set \<Rightarrow> int \<Rightarrow> bool" where
  "keeps_day env S n =
     (\<forall>time\<in>S. Day (LocalTime env (UTC env (MakeDate n time))) = n
                \<and> TimeWithinDay (LocalTime env (UTC env (MakeDate n time))) \<in> S)"

section \<open>Example environments and gateways\<close>

text \<open>
  A small time zone database, a process that runs in UTC, and a process that runs in
  America/New_York around the start of daylight saving time on 2026-03-08 (02:00 local time,
  07:00 UTC): before it the offset is five hours behind UTC, after it four.
\<close>

definition zones :: "string \<Rightarrow> (int \<Rightarrow> int) option" where
  "zones z =
     (if z = ''UTC'' then Some (\<lambda>t. 0)
      else if z = ''Asia/Tokyo'' then Some (\<lambda>t. 32400000)
      else None)"

definition env_utc :: environment where
  "env_utc = \<lparr>LocalTZA = (\<lambda>t isUTC. 0), timeZoneOffset = zones\<rparr>"

definition env_new_york :: environment where
  "env_new_york =
     \<lparr>LocalTZA = (\<lambda>t isUTC. if isUTC then (if t < 1772953200000 then - 18000000 else - 14400000)
                            else (if t < 1772938800000 then - 18000000 else - 14400000)),
      timeZoneOffset = zones\<rparr>"

text \<open>
  A process that runs in America/Santiago around the start of daylight saving time on
  2026-09-06: at midnight local time (04:00 UTC) the clocks go forward to one o'clock, from
  four hours behind UTC to three. The local times of the missing hour are read with the
  offset before the change, as the standard has it.
\<close>

definition env_santiago :: environment where
  "env_santiago =
     \<lparr>LocalTZA = (\<lambda>t isUTC. if isUTC then (if t < 1788667200000 then - 14400000 else - 10800000)
                            else (if t < 1788656400000 then - 14400000 else - 10800000)),
      timeZoneOffset = zones\<rparr>"

text \<open>
  A case fold for the examples: it folds the letters \<open>A\<close> to \<open>Z\<close> and leaves every other
  character as it is. On a name of ASCII characters it gives what
  \<open>String.prototype.toLowerCase\<close> gives, and the names of the examples are such names.
\<close>

definition toLowerCase_ascii :: "string \<Rightarrow> string" where
  "toLowerCase_ascii s =
     map (\<lambda>c. let n = (of_char c :: nat) in if 65 \<le> n \<and> n \<le> 90 then char_of (n + 32) else c) s"

text \<open>A gateway whose every call succeeds, and one whose second call fails.\<close>

definition gh_ok :: gh_process where
  "gh_ok history i = \<lparr>exec_error = None, stdout = JsonText (JObject []), stderr = []\<rparr>"

definition gh_second_fails :: gh_process where
  "gh_second_fails history i =
     (if length history = 1
      then \<lparr>exec_error = Some ''Command failed: gh api'', stdout = NoOutput, stderr = ''HTTP 422''\<rparr>
      else \<lparr>exec_error = None, stdout = JsonText (JObject []), stderr = []\<rparr>)"

text \<open>A gateway that succeeds and prints the given text.\<close>

definition gh_prints :: "stdout_text \<Rightarrow> gh_process" where
  "gh_prints out history i = \<lparr>exec_error = None, stdout = out, stderr = []\<rparr>"

definition list_labels_call :: api_call where
  "list_labels_call =
     \<lparr>httpMethod = ''GET'', endpoint = ''/repos/o/r/labels?per_page=100'', body = None, paginate = True\<rparr>"

text \<open>Two remote milestones due on the same day.\<close>

definition sprint_a :: Milestone where
  "sprint_a = \<lparr>number = 1, title = ''Sprint A'', m_description = None,
                due_on = Some ''2026-01-10T14:59:59Z'', state = ''open''\<rparr>"

definition sprint_b :: Milestone where
  "sprint_b = \<lparr>number = 2, title = ''Sprint B'', m_description = None,
                due_on = Some ''2026-01-10T14:59:59Z'', state = ''open''\<rparr>"


section \<open>Facts about the gateway calls\<close>

lemma ghApi_calls: "snd (ghApi gh calls c) = calls @ [c]"
  by (simp add: ghApi_def Let_def split: option.splits stdout_text.splits json.splits list.splits)

lemma ghApi_plain:
  "\<not> paginate c \<Longrightarrow>
   ghApi gh calls c =
     (case exec_error (gh (map invocation_of calls) (invocation_of c)) of
        Some msg \<Rightarrow> (Inl (Error (if trim (stderr (gh (map invocation_of calls) (invocation_of c))) \<noteq> []
                                  then trim (stderr (gh (map invocation_of calls) (invocation_of c))) else msg)),
                     calls @ [c])
      | None \<Rightarrow> (Inr (stdout (gh (map invocation_of calls) (invocation_of c))), calls @ [c]))"
  by (simp add: ghApi_def Let_def split: option.splits)

lemma call_failed_last:
  "call_failed gh (calls @ [c]) (length calls) =
     (exec_error (gh (map invocation_of calls) (invocation_of c)) \<noteq> None)"
  by (simp add: call_failed_def)

lemma call_failed_append:
  "k < length calls \<Longrightarrow> call_failed gh (calls @ [c]) k = call_failed gh calls k"
  by (simp add: call_failed_def nth_append)

lemma failed_calls_snoc:
  "failed_calls gh (calls @ [c]) =
     failed_calls gh calls @ (if call_failed gh (calls @ [c]) (length calls) then [length calls] else [])"
proof -
  have "filter (call_failed gh (calls @ [c])) [0..<length calls]
        = filter (call_failed gh calls) [0..<length calls]"
    by (rule filter_cong) (simp_all add: call_failed_append)
  then show ?thesis by (simp add: failed_calls_def)
qed

lemma accounted_try_create:
  assumes "accounted gh (s, calls)" and "\<not> paginate c"
  shows "accounted gh (try_create key (await_void (ghApi gh calls c)) s)"
  using assms
  by (auto simp: accounted_def try_create_def await_void_def ghApi_plain failed_calls_snoc
      call_failed_last split: option.splits)

lemma accounted_try_update:
  assumes "accounted gh (s, calls)" and "\<not> paginate c"
  shows "accounted gh (try_update key (await_void (ghApi gh calls c)) s)"
  using assms
  by (auto simp: accounted_def try_update_def await_void_def ghApi_plain failed_calls_snoc
      call_failed_last split: option.splits)

lemma try_create_calls: "snd (try_create key (await_void (ghApi gh calls c)) s) = calls @ [c]"
  using ghApi_calls [of gh calls c]
  by (cases "ghApi gh calls c") (auto simp: try_create_def await_void_def split: sum.splits)

lemma try_update_calls: "snd (try_update key (await_void (ghApi gh calls c)) s) = calls @ [c]"
  using ghApi_calls [of gh calls c]
  by (cases "ghApi gh calls c") (auto simp: try_update_def await_void_def split: sum.splits)

lemma accounted_summary0: "accounted gh (summary0, [])"
  by (simp add: accounted_def summary0_def failed_calls_def)


section \<open>Facts about the apply loops\<close>

lemma paginate_calls [simp]:
  "\<not> paginate (createLabel_call repo n c d)" "\<not> paginate (updateLabel_call repo n c d)"
  "\<not> paginate (createMilestone_call repo t d due)" "\<not> paginate (updateMilestone_call repo k t d)"
  "\<not> paginate (label_create_call repo l)" "\<not> paginate (label_update_call repo l)"
  "\<not> paginate (milestone_call repo em ds)"
  by (simp_all add: createLabel_call_def updateLabel_call_def createMilestone_call_def
      updateMilestone_call_def label_create_call_def label_update_call_def milestone_call_def
      split: option.splits)

lemma apply_create_eq:
  "apply_create gh repo (s, calls) l =
     try_create (name l) (await_void (ghApi gh calls (label_create_call repo l))) s"
  by (simp add: apply_create_def createLabel_def label_create_call_def)

lemma apply_update_eq:
  "apply_update gh repo (s, calls) l =
     try_update (name l) (await_void (ghApi gh calls (label_update_call repo l))) s"
  by (simp add: apply_update_def updateLabel_def label_update_call_def)

lemma apply_milestone_eq:
  "apply_milestone gh repo em d (s, calls) =
     (if httpMethod (milestone_call repo em d) = ''PATCH''
      then try_update (d_title d) (await_void (ghApi gh calls (milestone_call repo em d))) s
      else try_create (d_title d) (await_void (ghApi gh calls (milestone_call repo em d))) s)"
  by (simp add: apply_milestone_def milestone_call_def createMilestone_def updateMilestone_def
      createMilestone_call_def updateMilestone_call_def split: option.splits)

lemma foldl_apply_create:
  "accounted gh acc \<Longrightarrow>
   accounted gh (foldl (apply_create gh repo) acc ls)
   \<and> snd (foldl (apply_create gh repo) acc ls) = snd acc @ map (label_create_call repo) ls"
proof (induction ls arbitrary: acc)
  case Nil
  then show ?case by simp
next
  case (Cons l ls)
  obtain s calls where acc: "acc = (s, calls)" by (cases acc)
  have a: "accounted gh (apply_create gh repo acc l)"
    using Cons.prems by (simp add: acc apply_create_eq accounted_try_create)
  have c: "snd (apply_create gh repo acc l) = snd acc @ [label_create_call repo l]"
    by (simp add: acc apply_create_eq try_create_calls)
  from Cons.IH [OF a] c show ?case by simp
qed

lemma foldl_apply_update:
  "accounted gh acc \<Longrightarrow>
   accounted gh (foldl (apply_update gh repo) acc ls)
   \<and> snd (foldl (apply_update gh repo) acc ls) = snd acc @ map (label_update_call repo) ls"
proof (induction ls arbitrary: acc)
  case Nil
  then show ?case by simp
next
  case (Cons l ls)
  obtain s calls where acc: "acc = (s, calls)" by (cases acc)
  have a: "accounted gh (apply_update gh repo acc l)"
    using Cons.prems by (simp add: acc apply_update_eq accounted_try_update)
  have c: "snd (apply_update gh repo acc l) = snd acc @ [label_update_call repo l]"
    by (simp add: acc apply_update_eq try_update_calls)
  from Cons.IH [OF a] c show ?case by simp
qed

lemma labels_apply_calls:
  "snd (labels_apply gh repo p) = map (label_create_call repo) (toCreate p) @ map (label_update_call repo) (toUpdate p)"
  using foldl_apply_create [OF accounted_summary0, of gh repo "toCreate p"]
    foldl_apply_update [of gh "foldl (apply_create gh repo) (summary0, []) (toCreate p)" repo "toUpdate p"]
  by (simp add: labels_apply_def)

lemma labels_apply_accounted: "accounted gh (labels_apply gh repo p)"
  using foldl_apply_create [OF accounted_summary0, of gh repo "toCreate p"]
    foldl_apply_update [of gh "foldl (apply_create gh repo) (summary0, []) (toCreate p)" repo "toUpdate p"]
  by (simp add: labels_apply_def)

lemma apply_milestone_accounted:
  "accounted gh acc \<Longrightarrow> accounted gh (apply_milestone gh repo em d acc)"
  by (cases acc) (simp add: apply_milestone_eq accounted_try_create accounted_try_update)

lemma apply_milestone_calls:
  "snd (apply_milestone gh repo em d acc) = snd acc @ [milestone_call repo em d]"
  by (cases acc) (simp add: apply_milestone_eq try_create_calls try_update_calls)

lemma milestones_loop_returns:
  "(\<forall>k<n. \<exists>d. week_descriptor env sd tz (i + int k) = Inr d)
     \<Longrightarrow> \<exists>acc'. milestones_loop env gh repo sd tz em i n acc = Inr acc'"
proof (induction n arbitrary: i acc)
  case 0
  then show ?case by simp
next
  case (Suc n)
  from Suc.prems [rule_format, of 0] obtain d where d: "week_descriptor env sd tz i = Inr d" by auto
  have "\<forall>k<n. \<exists>d. week_descriptor env sd tz (i + 1 + int k) = Inr d"
  proof (intro allI impI)
    fix k assume "k < n"
    with Suc.prems [rule_format, of "Suc k"] show "\<exists>d. week_descriptor env sd tz (i + 1 + int k) = Inr d"
      by (simp add: algebra_simps)
  qed
  from Suc.IH [OF this] d show ?case by simp
qed

lemma milestones_loop_facts:
  "milestones_loop env gh repo sd tz em i n acc = Inr acc' \<Longrightarrow> accounted gh acc \<Longrightarrow>
   accounted gh acc' \<and> length (snd acc') = length (snd acc) + n
   \<and> (\<forall>k<n. \<exists>d. week_descriptor env sd tz (i + int k) = Inr d
          \<and> snd acc' ! (length (snd acc) + k) = milestone_call repo em d)
   \<and> take (length (snd acc)) (snd acc') = snd acc"
proof (induction n arbitrary: i acc)
  case 0
  then show ?case by simp
next
  case (Suc n)
  from Suc.prems(1) obtain d where d: "week_descriptor env sd tz i = Inr d"
    and rest: "milestones_loop env gh repo sd tz em (i + 1) n (apply_milestone gh repo em d acc) = Inr acc'"
    by (auto split: sum.splits)
  let ?acc1 = "apply_milestone gh repo em d acc"
  have a1: "accounted gh ?acc1" using Suc.prems(2) by (rule apply_milestone_accounted)
  have c1: "snd ?acc1 = snd acc @ [milestone_call repo em d]" by (rule apply_milestone_calls)
  from Suc.IH [OF rest a1] have acc': "accounted gh acc'"
    and len: "length (snd acc') = length (snd ?acc1) + n"
    and nth: "\<forall>k<n. \<exists>d. week_descriptor env sd tz (i + 1 + int k) = Inr d
          \<and> snd acc' ! (length (snd ?acc1) + k) = milestone_call repo em d"
    and pre: "take (length (snd ?acc1)) (snd acc') = snd ?acc1"
    by simp_all
  have pre': "take (length (snd acc)) (snd acc') = snd acc"
  proof -
    have "take (length (snd acc)) (take (length (snd ?acc1)) (snd acc')) = take (length (snd acc)) (snd ?acc1)"
      by (simp only: pre)
    then show ?thesis by (simp add: c1 min_def)
  qed
  have first: "snd acc' ! length (snd acc) = milestone_call repo em d"
  proof -
    have "snd acc' ! length (snd acc) = take (length (snd ?acc1)) (snd acc') ! length (snd acc)"
      by (simp add: c1)
    also have "\<dots> = milestone_call repo em d" by (simp only: pre) (simp add: c1)
    finally show ?thesis .
  qed
  have all: "\<forall>k<Suc n. \<exists>d. week_descriptor env sd tz (i + int k) = Inr d
          \<and> snd acc' ! (length (snd acc) + k) = milestone_call repo em d"
  proof (intro allI impI)
    fix k assume k: "k < Suc n"
    show "\<exists>d. week_descriptor env sd tz (i + int k) = Inr d
          \<and> snd acc' ! (length (snd acc) + k) = milestone_call repo em d"
    proof (cases k)
      case 0
      with d first show ?thesis by simp
    next
      case (Suc j)
      with k have "j < n" by simp
      with nth obtain d' where "week_descriptor env sd tz (i + 1 + int j) = Inr d'"
        "snd acc' ! (length (snd ?acc1) + j) = milestone_call repo em d'" by blast
      then show ?thesis using Suc by (simp add: c1 algebra_simps)
    qed
  qed
  from acc' len all pre' show ?case by (simp add: c1)
qed


section \<open>Facts about the milestone apply loop\<close>

lemma milestones_apply_facts:
  assumes "milestones_apply env gh repo startDate weeks timezone existing = Inr (s, calls)"
  shows "accounted gh (s, calls)" and "length calls = weeks"
    and "\<forall>k<weeks. \<exists>d. week_descriptor env startDate timezone (int k) = Inr d
            \<and> calls ! k = milestone_call repo (fst (index_milestones existing)) d"
  using milestones_loop_facts [of env gh repo startDate timezone "fst (index_milestones existing)" 0 weeks
      "(summary0, [])" "(s, calls)"] assms accounted_summary0 [of gh]
  by (simp_all add: milestones_apply_def)

lemma milestones_apply_returns:
  assumes "\<forall>k<weeks. \<exists>d. week_descriptor env startDate timezone (int k) = Inr d"
  shows "\<exists>s calls. milestones_apply env gh repo startDate weeks timezone existing = Inr (s, calls)"
  using milestones_loop_returns [of weeks env startDate timezone 0 gh repo "fst (index_milestones existing)"
      "(summary0, [])"] assms
  by (auto simp: milestones_apply_def)

lemma milestone_call_update:
  "em (d_endDateStr d) = Some n \<Longrightarrow> n \<noteq> 0 \<Longrightarrow>
   milestone_call repo em d = updateMilestone_call repo n (d_title d) (d_description d)"
  by (simp add: milestone_call_def)

lemma milestone_call_create:
  "\<not> (\<exists>n. em (d_endDateStr d) = Some n \<and> n \<noteq> 0) \<Longrightarrow>
   milestone_call repo em d = createMilestone_call repo (d_title d) (d_description d) (d_dueOn d)"
  by (auto simp: milestone_call_def split: option.splits)

lemma milestone_call_shapes:
  "httpMethod (updateMilestone_call repo n t ds) = ''PATCH''"
  "httpMethod (createMilestone_call repo t ds due) = ''POST''"
  "endpoint (updateMilestone_call repo n t ds) = ''/repos/'' @ repo @ ''/milestones/'' @ String_int n"
  "endpoint (createMilestone_call repo t ds due) = ''/repos/'' @ repo @ ''/milestones''"
  "body (updateMilestone_call repo n t ds) = Some [(''title'', JString t), (''description'', JString ds)]"
  "body (createMilestone_call repo t ds due)
     = Some [(''title'', JString t), (''description'', JString ds), (''due_on'', JString due)]"
  "body_keys (updateMilestone_call repo n t ds) = [''title'', ''description'']"
  "body_keys (createMilestone_call repo t ds due) = [''title'', ''description'', ''due_on'']"
  by (simp_all add: updateMilestone_call_def createMilestone_call_def body_keys_def)

lemma example_run:
  "milestones_apply env_utc gh_second_fails ''o/r'' ''2026-01-04'' 3 ''Asia/Tokyo''
     [\<lparr>number = 7, title = ''old'', m_description = None, due_on = Some ''2026-01-17T14:59:59Z'', state = ''open''\<rparr>]
   = Inr (\<lparr>createdCount = 2, updatedCount = 0, failedCount = 1,
            failures = [(''Week 2: 2026-01-17'', ''HTTP 422'')]\<rparr>,
          [createMilestone_call ''o/r'' ''Week 1: 2026-01-10'' ''Period: 2026-01-04 - 2026-01-10'' ''2026-01-10T14:59:59Z'',
           updateMilestone_call ''o/r'' 7 ''Week 2: 2026-01-17'' ''Period: 2026-01-11 - 2026-01-17'',
           createMilestone_call ''o/r'' ''Week 3: 2026-01-24'' ''Period: 2026-01-18 - 2026-01-24'' ''2026-01-24T14:59:59Z''])"
  by code_simp


section \<open>The example runs\<close>

lemma example_week_0:
  "week_descriptor env_utc ''2026-01-04'' ''Asia/Tokyo'' 0
   = Inr \<lparr>d_title = ''Week 1: 2026-01-10'', d_description = ''Period: 2026-01-04 - 2026-01-10'',
          d_endDateStr = ''2026-01-10'', d_dueOn = ''2026-01-10T14:59:59Z''\<rparr>"
  by code_simp

lemma example_week_1:
  "week_descriptor env_utc ''2026-01-04'' ''Asia/Tokyo'' 1
   = Inr \<lparr>d_title = ''Week 2: 2026-01-17'', d_description = ''Period: 2026-01-11 - 2026-01-17'',
          d_endDateStr = ''2026-01-17'', d_dueOn = ''2026-01-17T14:59:59Z''\<rparr>"
  by code_simp

lemma example_week_2:
  "week_descriptor env_utc ''2026-01-04'' ''Asia/Tokyo'' 2
   = Inr \<lparr>d_title = ''Week 3: 2026-01-24'', d_description = ''Period: 2026-01-18 - 2026-01-24'',
          d_endDateStr = ''2026-01-24'', d_dueOn = ''2026-01-24T14:59:59Z''\<rparr>"
  by code_simp

lemma example_weeks:
  "\<forall>k<3. \<exists>d. week_descriptor env_utc ''2026-01-04'' ''Asia/Tokyo'' (int k) = Inr d"
proof (intro allI impI)
  fix k :: nat assume "k < 3"
  then have "k = 0 \<or> k = 1 \<or> k = 2" by arith
  then show "\<exists>d. week_descriptor env_utc ''2026-01-04'' ''Asia/Tokyo'' (int k) = Inr d"
    using example_week_0 example_week_1 example_week_2 by auto
qed

lemma example_labels_apply:
  "labels_apply gh_second_fails ''o/r''
     (labels_diff toLowerCase_ascii [\<lparr>name = ''Bug'', color = ''#D73A4A'', description = None\<rparr>,
                   \<lparr>name = ''feature'', color = ''0075ca'', description = Some ''New feature''\<rparr>,
                   \<lparr>name = ''docs'', color = ''0075ca'', description = None\<rparr>]
                  [\<lparr>name = ''bug'', color = ''d73a4a'', description = None\<rparr>])
   = (\<lparr>createdCount = 1, updatedCount = 1, failedCount = 1, failures = [(''docs'', ''HTTP 422'')]\<rparr>,
      [label_create_call ''o/r'' \<lparr>name = ''feature'', color = ''0075ca'', description = Some ''New feature''\<rparr>,
       label_create_call ''o/r'' \<lparr>name = ''docs'', color = ''0075ca'', description = None\<rparr>,
       label_update_call ''o/r'' \<lparr>name = ''Bug'', color = ''#D73A4A'', description = None\<rparr>])"
  by code_simp

lemma example_one_failure:
  "failed_calls gh_second_fails [a, b, c] = [1]"
  by (simp add: failed_calls_def call_failed_def gh_second_fails_def upt_rec)


section \<open>Facts about the index of remote milestones\<close>

lemma index_milestone_key:
  "index_milestone (mp, w) m =
     (case date_key m of
        None \<Rightarrow> (mp, w)
      | Some k \<Rightarrow> (mp(k \<mapsto> number m),
                   w @ (case mp k of Some p \<Rightarrow> [duplicate_warning k m p] | None \<Rightarrow> [])))"
  by (simp add: index_milestone_def date_key_def Let_def split: option.splits)

lemma index_milestones_snoc:
  "index_milestones (xs @ [m]) = index_milestone (index_milestones xs) m"
  by (simp add: index_milestones_def)

lemma index_other_key:
  "date_key m \<noteq> Some k \<Longrightarrow> fst (index_milestone acc m) k = fst acc k"
  by (cases acc) (auto simp: index_milestone_key split: option.splits)

lemma index_same_key:
  "date_key m = Some k \<Longrightarrow> fst (index_milestone acc m) k = Some (number m)"
  by (cases acc) (auto simp: index_milestone_key split: option.splits)

lemma index_last:
  "date_key b = Some k \<Longrightarrow> \<forall>m \<in> set zs. date_key m \<noteq> Some k
     \<Longrightarrow> fst (index_milestones (xs @ [b] @ zs)) k = Some (number b)"
proof (induction zs rule: rev_induct)
  case Nil
  then show ?case by (simp add: index_milestones_snoc index_same_key)
next
  case (snoc z zs)
  have "index_milestones (xs @ [b] @ zs @ [z]) = index_milestone (index_milestones (xs @ [b] @ zs)) z"
    using index_milestones_snoc [of "xs @ [b] @ zs" z] by simp
  with snoc show ?case by (simp add: index_other_key)
qed

lemma index_absent:
  "\<forall>m \<in> set xs. date_key m \<noteq> Some k \<Longrightarrow> fst (index_milestones xs) k = None"
proof (induction xs rule: rev_induct)
  case Nil
  then show ?case by (simp add: index_milestones_def)
next
  case (snoc x xs)
  then show ?case by (simp add: index_milestones_snoc index_other_key)
qed

lemma index_warnings_step:
  "set (snd acc) \<subseteq> set (snd (index_milestone acc m))"
  by (cases acc) (auto simp: index_milestone_key split: option.splits)

lemma index_warnings_mono:
  "set (snd (index_milestones xs)) \<subseteq> set (snd (index_milestones (xs @ ys)))"
proof (induction ys rule: rev_induct)
  case Nil
  then show ?case by simp
next
  case (snoc y ys)
  have "index_milestones (xs @ ys @ [y]) = index_milestone (index_milestones (xs @ ys)) y"
    using index_milestones_snoc [of "xs @ ys" y] by simp
  with snoc index_warnings_step [of "index_milestones (xs @ ys)" y] show ?case by auto
qed

lemma index_warning:
  assumes "date_key a = Some k" and "date_key b = Some k" and "\<forall>m \<in> set ys. date_key m \<noteq> Some k"
  shows "duplicate_warning k b (number a) \<in> set (snd (index_milestones (xs @ [a] @ ys @ [b] @ zs)))"
proof -
  have prev: "fst (index_milestones (xs @ [a] @ ys)) k = Some (number a)"
    using assms(1,3) by (rule index_last)
  have "index_milestones (xs @ [a] @ ys @ [b]) = index_milestone (index_milestones (xs @ [a] @ ys)) b"
    using index_milestones_snoc [of "xs @ [a] @ ys" b] by simp
  then have "duplicate_warning k b (number a) \<in> set (snd (index_milestones (xs @ [a] @ ys @ [b])))"
    using prev assms(2) by (cases "index_milestones (xs @ [a] @ ys)") (simp add: index_milestone_key)
  with index_warnings_mono [of "xs @ [a] @ ys @ [b]" zs] show ?thesis by auto
qed

lemma starts_with_append: "starts_with p (p @ s)"
  by (induction p) simp_all

lemma contains_prefix: "contains p (p @ s)"
  using starts_with_append [of p s] by (cases "p @ s") auto

lemma contains_append: "contains p s \<Longrightarrow> contains p (a @ s)"
proof (induction a)
  case Nil
  then show ?case by simp
next
  case (Cons c a)
  then show ?case by simp
qed

lemma contains_middle: "contains p (a @ p @ s)"
  by (rule contains_append) (rule contains_prefix)


section \<open>Facts about the calendar\<close>




















section \<open>Facts about the texts of numbers and dates\<close>

lemma small: "y < 10000 \<Longrightarrow> y div 1000 < (10::nat)" "m \<le> 12 \<Longrightarrow> m div 10 < (10::nat)" "d \<le> 31 \<Longrightarrow> d div 10 < (10::nat)"
  by simp_all



lemma String_nat_1: "n < 10 \<Longrightarrow> String_nat n = [digit_char n]"
  by (simp add: String_nat.simps [of n])

lemma String_nat_2: "10 \<le> n \<Longrightarrow> n < 100 \<Longrightarrow> String_nat n = [digit_char (n div 10), digit_char (n mod 10)]"
  by (simp add: String_nat.simps [of n] String_nat_1)

lemma String_nat_3:
  "100 \<le> n \<Longrightarrow> n < 1000 \<Longrightarrow>
   String_nat n = [digit_char (n div 100), digit_char (n div 10 mod 10), digit_char (n mod 10)]"
  using String_nat_2 [of "n div 10"]
  by (simp add: String_nat.simps [of n] div_mult2_eq [symmetric])

lemma String_nat_4:
  "1000 \<le> n \<Longrightarrow> n < 10000 \<Longrightarrow>
   String_nat n = [digit_char (n div 1000), digit_char (n div 100 mod 10), digit_char (n div 10 mod 10),
                   digit_char (n mod 10)]"
  using String_nat_3 [of "n div 10"]
  by (simp add: String_nat.simps [of n] div_mult2_eq [symmetric])

lemma pad2: "n < 100 \<Longrightarrow> padStart 2 (String_nat n) = [digit_char (n div 10), digit_char (n mod 10)]"
proof (cases "n < 10")
  case True
  then show ?thesis by (simp add: padStart_def String_nat_1 digit_char_def)
next
  case False
  assume "n < 100"
  with False show ?thesis by (simp add: padStart_def String_nat_2)
qed





lemma parseIsoTime_examples:
  "parseIsoTime ''T23:59:59Z'' = Some (86399000, True)"
  "parseIsoTime ''T00:00:00'' = Some (0, False)"
  by code_simp+

lemma length_date_text:
  assumes "1000 \<le> y" "y < 10000" "m < 100" "d < 100"
  shows "length (String_nat y @ ''-'' @ padStart 2 (String_nat m) @ ''-'' @ padStart 2 (String_nat d)) = 10"
  using assms by (simp add: String_nat_4 pad2)


section \<open>Facts about the dates of the schedule\<close>





text \<open>With midnight alone, \<open>keeps_day\<close> says that the local midnight of the day exists.\<close>

lemma keeps_day_midnight:
  "keeps_day env {0} n \<longleftrightarrow> LocalTime env (UTC env (n * msPerDay)) = n * msPerDay"
proof -
  have "Day t = n \<and> TimeWithinDay t = 0 \<longleftrightarrow> t = n * msPerDay" for t
    using div_mult_mod_eq [of t msPerDay] by (auto simp: Day_def TimeWithinDay_def msPerDay_def)
  then show ?thesis by (simp add: keeps_day_def MakeDate_def)
qed

lemma parseIsoDate_length: "parseIsoDate s = Some r \<Longrightarrow> length s = 10"
  by (auto simp: parseIsoDate_def split: if_splits)


lemma Date_parse_end_of_day:
  assumes "parseIsoDate s = Some (y, m, d)"
  shows "Date_parse env (s @ ''T23:59:59Z'') = Some (MakeDay y (m - 1) d * msPerDay + 86399000)"
  using assms parseIsoDate_length [OF assms]
  by (simp add: Date_parse_def parseIsoTime_examples MakeDate_def)





section \<open>Facts about the descriptor of a week\<close>





section \<open>Facts about the label command\<close>

text \<open>The map of the remote labels holds, for a key, the last label of the listing with that key.\<close>

lemma existingMap_of_last:
  "existingMap_of toLowerCase existingLabels key
     = find (\<lambda>l. toLowerCase (name l) = key) (rev existingLabels)"
  by (induction existingLabels rule: rev_induct) (simp_all add: existingMap_of_def)

lemma diff_fold_subset:
  "set (toCreate (foldl (diff_step toLowerCase em) p ds)) \<subseteq> set (toCreate p) \<union> set ds
   \<and> set (toUpdate (foldl (diff_step toLowerCase em) p ds)) \<subseteq> set (toUpdate p) \<union> set ds"
proof (induction ds arbitrary: p)
  case Nil
  then show ?case by simp
next
  case (Cons d ds)
  have "set (toCreate (diff_step toLowerCase em p d)) \<subseteq> set (toCreate p) \<union> {d}"
    and "set (toUpdate (diff_step toLowerCase em p d)) \<subseteq> set (toUpdate p) \<union> {d}"
    by (auto simp: diff_step_def split: classification.splits)
  with Cons.IH [of "diff_step toLowerCase em p d"] show ?case by auto
qed

lemma labels_diff_subset:
  "set (toCreate (labels_diff toLowerCase desiredLabels existingLabels)) \<subseteq> set desiredLabels"
  "set (toUpdate (labels_diff toLowerCase desiredLabels existingLabels)) \<subseteq> set desiredLabels"
  using diff_fold_subset [of toLowerCase "existingMap_of toLowerCase existingLabels" "\<lparr>toCreate = [], toUpdate = [], unchanged = 0\<rparr>" desiredLabels]
  by (simp_all add: labels_diff_def)

lemma labels_sync_calls:
  "set (snd (labels_sync toLowerCase gh repo desiredLabels existingLabels confirmed))
     \<subseteq> label_create_call repo ` set (toCreate (labels_diff toLowerCase desiredLabels existingLabels))
       \<union> label_update_call repo ` set (toUpdate (labels_diff toLowerCase desiredLabels existingLabels))"
  by (auto simp: labels_sync_def Let_def labels_apply_calls)

lemma labels_sync_confirmed:
  "confirmed \<Longrightarrow>
   snd (labels_sync toLowerCase gh repo desiredLabels existingLabels confirmed)
     = map (label_create_call repo) (toCreate (labels_diff toLowerCase desiredLabels existingLabels))
       @ map (label_update_call repo) (toUpdate (labels_diff toLowerCase desiredLabels existingLabels))"
  by (auto simp: labels_sync_def Let_def labels_apply_calls)

lemma label_call_shapes:
  "httpMethod (label_create_call repo l) = ''POST''"
  "httpMethod (label_update_call repo l) = ''PATCH''"
  "body_keys (label_create_call repo l) = [''name'', ''color'', ''description'']"
  "body_keys (label_update_call repo l) = [''color'', ''description'']"
  "body (label_update_call repo l) =
     Some [(''color'', JString (replace_leading_hash (color l))), (''description'', JString (nullish (description l)))]"
  "endpoint (label_update_call repo l) = ''/repos/'' @ repo @ ''/labels/'' @ encodeURIComponent (name l)"
  "endpoint (label_create_call repo l) = ''/repos/'' @ repo @ ''/labels''"
  by (simp_all add: label_create_call_def label_update_call_def createLabel_call_def
      updateLabel_call_def body_keys_def)

lemma example_label_sync:
  "snd (labels_sync toLowerCase_ascii gh_ok ''o/r''
          [\<lparr>name = ''Bug'', color = ''#D73A4A'', description = None\<rparr>]
          [\<lparr>name = ''bug'', color = ''d73a4a'', description = None\<rparr>,
           \<lparr>name = ''wontfix'', color = ''ffffff'', description = None\<rparr>] True)
   = [\<lparr>httpMethod = ''PATCH'', endpoint = ''/repos/o/r/labels/Bug'',
       body = Some [(''color'', JString ''D73A4A''), (''description'', JString [])], paginate = False\<rparr>]"
  by code_simp


section \<open>Facts about the due instant\<close>

text \<open>
  A process in New York keeps every day with midnight alone: the clocks change at two in the
  morning, so every local midnight exists.
\<close>

lemma env_new_york_midnights:
  "LocalTime env_new_york (UTC env_new_york (n * msPerDay)) = n * msPerDay"
proof (cases "n \<le> 20520")
  case True
  then have "n * 86400000 < 1772938800000" "n * 86400000 + 18000000 < 1772953200000" by simp_all
  then show ?thesis by (simp add: LocalTime_def UTC_def env_new_york_def msPerDay_def)
next
  case False
  then have "\<not> n * 86400000 < 1772938800000" "\<not> n * 86400000 + 14400000 < 1772953200000" by simp_all
  then show ?thesis by (simp add: LocalTime_def UTC_def env_new_york_def msPerDay_def)
qed

lemma env_new_york_keeps: "keeps_day env_new_york {0} n"
  by (simp add: keeps_day_midnight env_new_york_midnights)




lemma env_santiago_no_midnight:
  "LocalTime env_santiago (UTC env_santiago (20702 * msPerDay)) = 20702 * msPerDay + 3600000"
  by (simp add: LocalTime_def UTC_def env_santiago_def msPerDay_def)



lemma parseIsoTime_tokyo: "parseIsoTime ''T14:59:59Z'' = Some (53999000, True)"
  by code_simp

lemma Date_parse_tokyo_end_of_day:
  assumes "parseIsoDate s = Some (y, m, d)"
  shows "Date_parse env (s @ ''T14:59:59Z'') = Some (MakeDay y (m - 1) d * msPerDay + 86399000 - 32400000)"
  using assms parseIsoDate_length [OF assms]
  by (simp add: Date_parse_def parseIsoTime_tokyo MakeDate_def)

lemma due_on_utc:
  assumes "parseIsoDate dateStr = Some (y, m, d)"
    and "timeZoneOffset env ''UTC'' = Some (\<lambda>t. 0)"
  shows "toUtcDueOn_time env dateStr ''UTC'' = Inr (Date_parse env (dateStr @ ''T23:59:59Z''))"
  by (simp add: toUtcDueOn_time_def Date_parse_end_of_day [OF assms(1)] assms(2) toLocaleString_def
      Date_of_locale_string_def Let_def)

lemma due_on_tokyo:
  assumes "parseIsoDate dateStr = Some (y, m, d)"
    and "timeZoneOffset env ''UTC'' = Some (\<lambda>t. 0)"
    and "timeZoneOffset env ''Asia/Tokyo'' = Some (\<lambda>t. 32400000)"
    and "LocalTZA env (MakeDay y (m - 1) d * msPerDay + 86399000 + 32400000) False
         = LocalTZA env (MakeDay y (m - 1) d * msPerDay + 86399000) False"
  shows "toUtcDueOn_time env dateStr ''Asia/Tokyo'' = Inr (Date_parse env (dateStr @ ''T14:59:59Z''))"
proof -
  let ?r = "MakeDay y (m - 1) d * msPerDay + 86399000"
  have w: "?r mod 1000 = 0" "(?r + 32400000) mod 1000 = 0"
    by (simp_all add: msPerDay_def)
  show ?thesis
    using assms(4) w
    by (simp add: toUtcDueOn_time_def Date_parse_end_of_day [OF assms(1)]
        Date_parse_tokyo_end_of_day [OF assms(1)] assms(2,3) toLocaleString_def
        Date_of_locale_string_def Let_def UTC_def)
qed

lemma dueOn_fixed_default: "dueOn_fixed None endDateStr = endDateStr @ ''T14:59:59Z''"
  by (simp add: dueOn_fixed_def)


section \<open>The weekly schedule\<close>



section \<open>The due instant in UTC and in Asia/Tokyo\<close>

text \<open>
  Claim C2 holds for \<open>UTC\<close> in every environment (\<open>due_on_utc\<close>), and for \<open>Asia/Tokyo\<close>
  whenever the zone of the process has the same offset at the two wall-clock readings that
  \<open>toUtcDueOn\<close> takes, nine hours apart (\<open>due_on_tokyo\<close>). It fails otherwise, because the
  function reads both texts back as local times of the process. In a process running in
  America/New_York, for the Saturday 2026-03-07, the reading for Tokyo falls after the start
  of daylight saving time and the reading for UTC before it: the offset comes out as eight
  hours, and the due instant as 15:59:59Z instead of 14:59:59Z.
\<close>

theorem due_on_new_york_process:
  "toUtcDueOn env_new_york ''2026-03-07'' ''Asia/Tokyo'' = Inr ''2026-03-07T15:59:59Z''"
  by code_simp


section \<open>Label classification\<close>

text \<open>
  Claim C3, as the code has it, for every function in the place of \<open>toLowerCase\<close>. A desired
  label is compared with the remote label whose name is equal to its own once both are in
  lower case; when the listing has several such labels, with the last of them. When there is
  none the label is Create. Otherwise the colour of the desired label loses one leading \<open>#\<close>
  and is compared as it is written, letter case included: the label is Unchanged exactly
  when the remote colour equals that text and the two descriptions, an absent one read as
  empty, are equal, and Update if not.
\<close>

theorem label_classification:
  "classify toLowerCase (existingMap_of toLowerCase existingLabels) desired =
     (case find (\<lambda>l. toLowerCase (name l) = toLowerCase (name desired)) (rev existingLabels) of
        None \<Rightarrow> Create
      | Some existing \<Rightarrow>
          if color existing = replace_leading_hash (color desired)
             \<and> nullish (description existing) = nullish (description desired)
          then Unchanged else Update)"
  by (simp add: classify_def existingMap_of_last split: option.splits)

text \<open>The desired label \<open>Bug\<close> with colour \<open>#d73a4a\<close> against the remote \<open>bug\<close>, \<open>d73a4a\<close>.\<close>

theorem label_classification_witness:
  "classify toLowerCase_ascii
     (existingMap_of toLowerCase_ascii [\<lparr>name = ''bug'', color = ''d73a4a'', description = None\<rparr>])
     \<lparr>name = ''Bug'', color = ''#d73a4a'', description = Some ''''\<rparr> = Unchanged"
  unfolding label_classification by code_simp

text \<open>
  The example of claim C3 itself: the colour \<open>#D73A4A\<close> in capitals against the remote
  \<open>d73a4a\<close> is classified Update, not Unchanged.
\<close>

theorem label_color_case_counterexample:
  "classify toLowerCase_ascii
     (existingMap_of toLowerCase_ascii [\<lparr>name = ''bug'', color = ''d73a4a'', description = None\<rparr>])
     \<lparr>name = ''Bug'', color = ''#D73A4A'', description = None\<rparr> = Update"
  by code_simp

section \<open>Matching a week with a remote milestone\<close>

text \<open>
  Claim C4, as the code has it. Take a run that returns, a week \<open>k\<close> of it and the
  descriptor of that week. If \<open>m\<close> is the last remote milestone whose date key is the
  descriptor's end date, and its number is not zero, then the call made for the week is the
  update of milestone \<open>number m\<close> (a \<open>PATCH\<close> on its path, not a \<open>POST\<close>). If no remote
  milestone has that date key, the call is a create, whatever the numbers and titles of the
  remote milestones are. One call is made per week.
\<close>

theorem milestone_matched_by_date:
  assumes "milestones_apply env gh repo startDate weeks timezone existing = Inr (s, calls)"
    and "k < weeks"
    and "week_descriptor env startDate timezone (int k) = Inr d"
  shows "(\<forall>xs m zs. existing = xs @ [m] @ zs \<and> date_key m = Some (d_endDateStr d)
            \<and> (\<forall>m' \<in> set zs. date_key m' \<noteq> Some (d_endDateStr d)) \<and> number m \<noteq> 0
          \<longrightarrow> calls ! k = updateMilestone_call repo (number m) (d_title d) (d_description d)
              \<and> httpMethod (calls ! k) = ''PATCH''
              \<and> endpoint (calls ! k) = ''/repos/'' @ repo @ ''/milestones/'' @ String_int (number m)
              \<and> httpMethod (calls ! k) \<noteq> ''POST'')
      \<and> ((\<forall>m \<in> set existing. date_key m \<noteq> Some (d_endDateStr d))
          \<longrightarrow> calls ! k = createMilestone_call repo (d_title d) (d_description d) (d_dueOn d))
      \<and> length calls = weeks"
proof (intro conjI allI impI)
  from milestones_apply_facts(3) [OF assms(1)] assms(2,3)
  have c: "calls ! k = milestone_call repo (fst (index_milestones existing)) d" by auto
  {
    fix xs m zs
    assume a: "existing = xs @ [m] @ zs \<and> date_key m = Some (d_endDateStr d)
            \<and> (\<forall>m' \<in> set zs. date_key m' \<noteq> Some (d_endDateStr d)) \<and> number m \<noteq> 0"
    then have "fst (index_milestones existing) (d_endDateStr d) = Some (number m)"
      using index_last [of m "d_endDateStr d" zs xs] by simp
    with a c have u: "calls ! k = updateMilestone_call repo (number m) (d_title d) (d_description d)"
      by (simp add: milestone_call_update)
    then show "calls ! k = updateMilestone_call repo (number m) (d_title d) (d_description d)" .
    from u show "httpMethod (calls ! k) = ''PATCH''" by (simp add: milestone_call_shapes)
    from u show "endpoint (calls ! k) = ''/repos/'' @ repo @ ''/milestones/'' @ String_int (number m)"
      by (simp add: milestone_call_shapes)
    from u show "httpMethod (calls ! k) \<noteq> ''POST''" by (simp add: milestone_call_shapes)
  }
  {
    assume "\<forall>m \<in> set existing. date_key m \<noteq> Some (d_endDateStr d)"
    then have "fst (index_milestones existing) (d_endDateStr d) = None" by (rule index_absent)
    with c show "calls ! k = createMilestone_call repo (d_title d) (d_description d) (d_dueOn d)"
      by (simp add: milestone_call_create)
  }
  show "length calls = weeks" using assms(1) by (rule milestones_apply_facts)
qed

text \<open>
  Three weeks from 2026-01-04 against the remote milestone 7 due on 2026-01-17: the call of
  the second week is a \<open>PATCH\<close> on milestone 7.
\<close>

theorem milestone_matched_by_date_witness:
  "\<exists>s calls. milestones_apply env_utc gh_second_fails ''o/r'' ''2026-01-04'' 3 ''Asia/Tokyo''
       [\<lparr>number = 7, title = ''old'', m_description = None, due_on = Some ''2026-01-17T14:59:59Z'', state = ''open''\<rparr>]
       = Inr (s, calls)
     \<and> httpMethod (calls ! 1) = ''PATCH'' \<and> endpoint (calls ! 1) = ''/repos/o/r/milestones/'' @ String_int 7"
proof -
  have one: "(1::nat) < 3" by simp
  have w: "week_descriptor env_utc ''2026-01-04'' ''Asia/Tokyo'' (int 1)
   = Inr \<lparr>d_title = ''Week 2: 2026-01-17'', d_description = ''Period: 2026-01-11 - 2026-01-17'',
          d_endDateStr = ''2026-01-17'', d_dueOn = ''2026-01-17T14:59:59Z''\<rparr>"
    using example_week_1 by simp
  from milestone_matched_by_date [OF example_run one w, THEN conjunct1, rule_format,
      of "[]" "\<lparr>number = 7, title = ''old'', m_description = None, due_on = Some ''2026-01-17T14:59:59Z'', state = ''open''\<rparr>" "[]"]
  show ?thesis by (simp add: example_run date_key_def)
qed

text \<open>
  Against claim C4 as it is worded: the end date of the first week, 2026-01-10, is the date
  of Sprint A's \<open>due_on\<close>, and yet the update made refers to number 2 (Sprint B, due on the
  same day and enumerated later), not to Sprint A's number 1.
\<close>

theorem duplicate_date_counterexample:
  "milestones_apply env_utc gh_ok ''o/r'' ''2026-01-04'' 1 ''UTC'' [sprint_a, sprint_b]
     = Inr (\<lparr>createdCount = 0, updatedCount = 1, failedCount = 0, failures = []\<rparr>,
            [updateMilestone_call ''o/r'' 2 ''Week 1: 2026-01-10'' ''Period: 2026-01-04 - 2026-01-10''])
   \<and> date_key sprint_a = Some ''2026-01-10'' \<and> number sprint_a = 1
   \<and> updateMilestone_call ''o/r'' 2 ''Week 1: 2026-01-10'' ''Period: 2026-01-04 - 2026-01-10''
       \<noteq> updateMilestone_call ''o/r'' 1 ''Week 1: 2026-01-10'' ''Period: 2026-01-04 - 2026-01-10''"
  by code_simp


section \<open>Requests of the milestone command\<close>

text \<open>
  Claim C5. When the command returns, it has made one call for each week. For the week's
  descriptor, if the index holds a number other than zero under its end date, the call is a
  \<open>PATCH\<close> whose body has the two fields \<open>title\<close> and \<open>description\<close> of the descriptor and no
  \<open>due_on\<close>; otherwise it is a \<open>POST\<close> whose body has the title, the description and, as
  \<open>due_on\<close>, the due instant of the descriptor. Only a create sends the due date.
\<close>

theorem milestone_update_body:
  assumes "milestones_apply env gh repo startDate weeks timezone existing = Inr (s, calls)"
  shows "length calls = weeks
    \<and> (\<forall>k<weeks. \<exists>d. week_descriptor env startDate timezone (int k) = Inr d
          \<and> (if \<exists>n. fst (index_milestones existing) (d_endDateStr d) = Some n \<and> n \<noteq> 0
              then httpMethod (calls ! k) = ''PATCH''
                   \<and> body (calls ! k) = Some [(''title'', JString (d_title d)),
                                              (''description'', JString (d_description d))]
                   \<and> ''due_on'' \<notin> set (body_keys (calls ! k))
              else httpMethod (calls ! k) = ''POST''
                   \<and> body (calls ! k) = Some [(''title'', JString (d_title d)),
                                              (''description'', JString (d_description d)),
                                              (''due_on'', JString (d_dueOn d))]))"
proof (intro conjI allI impI)
  show "length calls = weeks" using assms by (rule milestones_apply_facts)
next
  fix k assume "k < weeks"
  with milestones_apply_facts(3) [OF assms] obtain d
    where d: "week_descriptor env startDate timezone (int k) = Inr d"
      and c: "calls ! k = milestone_call repo (fst (index_milestones existing)) d" by blast
  show "\<exists>d. week_descriptor env startDate timezone (int k) = Inr d
          \<and> (if \<exists>n. fst (index_milestones existing) (d_endDateStr d) = Some n \<and> n \<noteq> 0
              then httpMethod (calls ! k) = ''PATCH''
                   \<and> body (calls ! k) = Some [(''title'', JString (d_title d)),
                                              (''description'', JString (d_description d))]
                   \<and> ''due_on'' \<notin> set (body_keys (calls ! k))
              else httpMethod (calls ! k) = ''POST''
                   \<and> body (calls ! k) = Some [(''title'', JString (d_title d)),
                                              (''description'', JString (d_description d)),
                                              (''due_on'', JString (d_dueOn d))])"
  proof (cases "\<exists>n. fst (index_milestones existing) (d_endDateStr d) = Some n \<and> n \<noteq> 0")
    case True
    then obtain n where "fst (index_milestones existing) (d_endDateStr d) = Some n" "n \<noteq> 0" by blast
    then have "calls ! k = updateMilestone_call repo n (d_title d) (d_description d)"
      using c by (simp add: milestone_call_update)
    with d True show ?thesis by (intro exI [of _ d]) (simp add: milestone_call_shapes)
  next
    case False
    then have "calls ! k = createMilestone_call repo (d_title d) (d_description d) (d_dueOn d)"
      using c milestone_call_create [of "fst (index_milestones existing)" d repo] by simp
    with d False show ?thesis by (intro exI [of _ d]) (simp add: milestone_call_shapes)
  qed
qed

text \<open>
  Three weeks from 2026-01-04 against one remote milestone due on 2026-01-17: the second
  call is a \<open>PATCH\<close> without \<open>due_on\<close>.
\<close>

theorem milestone_update_body_witness:
  "\<exists>s calls. milestones_apply env_utc gh_second_fails ''o/r'' ''2026-01-04'' 3 ''Asia/Tokyo''
       [\<lparr>number = 7, title = ''old'', m_description = None, due_on = Some ''2026-01-17T14:59:59Z'', state = ''open''\<rparr>]
       = Inr (s, calls)
     \<and> httpMethod (calls ! 1) = ''PATCH'' \<and> ''due_on'' \<notin> set (body_keys (calls ! 1))"
  using milestone_update_body [OF example_run, THEN conjunct2, rule_format, of 1]
  by (auto simp: example_run milestone_call_shapes split: if_splits)


section \<open>Batches with a failing item\<close>

text \<open>
  Claim C6. The label apply phase makes one call for every label of the create list and of the
  update list, and the milestone loop, whenever the dates of all its weeks can be computed,
  returns after one call for every week: a failing gateway call never ends either loop. Each
  call is counted once (created, updated or failed), each failure is in the failure list, and
  the failed count is the number of calls that failed; so when exactly one call of the batch
  fails, the failed count is 1.
\<close>

theorem batch_apply_continues:
  assumes "labels_apply gh repo p = (ls, lcalls)"
    and "\<forall>k<weeks. \<exists>d. week_descriptor env startDate timezone (int k) = Inr d"
  shows "(length lcalls = length (toCreate p) + length (toUpdate p)
          \<and> createdCount ls + updatedCount ls + failedCount ls = length lcalls
          \<and> length (failures ls) = failedCount ls
          \<and> failedCount ls = length (failed_calls gh lcalls)
          \<and> (length (failed_calls gh lcalls) = 1 \<longrightarrow> failedCount ls = 1))
       \<and> (\<exists>s calls. milestones_apply env gh repo startDate weeks timezone existing = Inr (s, calls)
            \<and> length calls = weeks
            \<and> createdCount s + updatedCount s + failedCount s = weeks
            \<and> length (failures s) = failedCount s
            \<and> failedCount s = length (failed_calls gh calls)
            \<and> (length (failed_calls gh calls) = 1 \<longrightarrow> failedCount s = 1))"
proof
  have "accounted gh (ls, lcalls)" using labels_apply_accounted [of gh repo p] assms(1) by simp
  moreover have "length lcalls = length (toCreate p) + length (toUpdate p)"
    using labels_apply_calls [of gh repo p] assms(1) by simp
  ultimately show "length lcalls = length (toCreate p) + length (toUpdate p)
          \<and> createdCount ls + updatedCount ls + failedCount ls = length lcalls
          \<and> length (failures ls) = failedCount ls
          \<and> failedCount ls = length (failed_calls gh lcalls)
          \<and> (length (failed_calls gh lcalls) = 1 \<longrightarrow> failedCount ls = 1)"
    by (simp add: accounted_def)
next
  from milestones_apply_returns [OF assms(2)] obtain s calls
    where run: "milestones_apply env gh repo startDate weeks timezone existing = Inr (s, calls)" by blast
  have "accounted gh (s, calls)" and "length calls = weeks"
    using milestones_apply_facts [OF run] by simp_all
  then have "length calls = weeks
            \<and> createdCount s + updatedCount s + failedCount s = weeks
            \<and> length (failures s) = failedCount s
            \<and> failedCount s = length (failed_calls gh calls)
            \<and> (length (failed_calls gh calls) = 1 \<longrightarrow> failedCount s = 1)"
    by (simp add: accounted_def)
  with run show "\<exists>s calls. milestones_apply env gh repo startDate weeks timezone existing = Inr (s, calls)
            \<and> length calls = weeks
            \<and> createdCount s + updatedCount s + failedCount s = weeks
            \<and> length (failures s) = failedCount s
            \<and> failedCount s = length (failed_calls gh calls)
            \<and> (length (failed_calls gh calls) = 1 \<longrightarrow> failedCount s = 1)"
    by blast
qed

text \<open>
  Three label changes and three weeks, with a gateway whose second call fails: three calls
  each, and a failed count of 1.
\<close>

theorem batch_apply_continues_witness:
  "length (snd (labels_apply gh_second_fails ''o/r''
       (labels_diff toLowerCase_ascii [\<lparr>name = ''Bug'', color = ''#D73A4A'', description = None\<rparr>,
                     \<lparr>name = ''feature'', color = ''0075ca'', description = Some ''New feature''\<rparr>,
                     \<lparr>name = ''docs'', color = ''0075ca'', description = None\<rparr>]
                    [\<lparr>name = ''bug'', color = ''d73a4a'', description = None\<rparr>]))) = 3
   \<and> failedCount (fst (labels_apply gh_second_fails ''o/r''
       (labels_diff toLowerCase_ascii [\<lparr>name = ''Bug'', color = ''#D73A4A'', description = None\<rparr>,
                     \<lparr>name = ''feature'', color = ''0075ca'', description = Some ''New feature''\<rparr>,
                     \<lparr>name = ''docs'', color = ''0075ca'', description = None\<rparr>]
                    [\<lparr>name = ''bug'', color = ''d73a4a'', description = None\<rparr>]))) = 1
   \<and> (\<exists>s calls. milestones_apply env_utc gh_second_fails ''o/r'' ''2026-01-04'' 3 ''Asia/Tokyo''
           [\<lparr>number = 7, title = ''old'', m_description = None, due_on = Some ''2026-01-17T14:59:59Z'', state = ''open''\<rparr>]
           = Inr (s, calls)
         \<and> length calls = 3 \<and> failedCount s = 1)"
  using batch_apply_continues [OF example_labels_apply example_weeks,
      where existing = "[\<lparr>number = 7, title = ''old'', m_description = None, due_on = Some ''2026-01-17T14:59:59Z'', state = ''open''\<rparr>]"]
  by (auto simp: example_run example_one_failure example_labels_apply)


section \<open>Pagination\<close>

lemma flat_all_arrays:
  "\<forall>x \<in> set xs. is_array x \<Longrightarrow> flat xs = concat (map items xs)"
  by (induction xs) (auto simp: flat_def is_array_def items_def split: json.splits)

text \<open>
  Claim C7, as the code has it. A paginated call that succeeds with a JSON text returns the
  one-level flattening of the parsed value exactly when that value is a non-empty array whose
  first element is an array; when every element is an array, this is the concatenation of the
  inner arrays. In every other case (no array, the empty array, a first element that is no
  array) the text is returned as it came. Only the first element is looked at.
\<close>

theorem paginated_flatten:
  assumes "paginate c"
    and "exec_error (gh (map invocation_of calls) (invocation_of c)) = None"
    and "stdout (gh (map invocation_of calls) (invocation_of c)) = JsonText parsed"
  shows "(is_array parsed \<and> items parsed \<noteq> [] \<and> (\<forall>x \<in> set (items parsed). is_array x)
            \<longrightarrow> fst (ghApi gh calls c) = Inr (JsonText (JArray (concat (map items (items parsed))))))
       \<and> (is_array parsed \<and> items parsed \<noteq> [] \<and> is_array (hd (items parsed))
            \<longrightarrow> fst (ghApi gh calls c) = Inr (JsonText (JArray (flat (items parsed)))))
       \<and> (\<not> (is_array parsed \<and> items parsed \<noteq> [] \<and> is_array (hd (items parsed)))
            \<longrightarrow> fst (ghApi gh calls c) = Inr (JsonText parsed))"
proof -
  have first: "is_array parsed \<and> items parsed \<noteq> [] \<and> is_array (hd (items parsed))
            \<longrightarrow> fst (ghApi gh calls c) = Inr (JsonText (JArray (flat (items parsed))))"
    using assms
    by (auto simp: ghApi_def Let_def is_array_def items_def split: json.splits list.splits)
  have other: "\<not> (is_array parsed \<and> items parsed \<noteq> [] \<and> is_array (hd (items parsed)))
            \<longrightarrow> fst (ghApi gh calls c) = Inr (JsonText parsed)"
    using assms
    by (auto simp: ghApi_def Let_def is_array_def items_def split: json.splits list.splits)
  have "is_array parsed \<and> items parsed \<noteq> [] \<and> (\<forall>x \<in> set (items parsed). is_array x)
            \<longrightarrow> fst (ghApi gh calls c) = Inr (JsonText (JArray (concat (map items (items parsed)))))"
  proof
    assume a: "is_array parsed \<and> items parsed \<noteq> [] \<and> (\<forall>x \<in> set (items parsed). is_array x)"
    then have "is_array (hd (items parsed))" by simp
    with a first have "fst (ghApi gh calls c) = Inr (JsonText (JArray (flat (items parsed))))" by simp
    with a show "fst (ghApi gh calls c) = Inr (JsonText (JArray (concat (map items (items parsed)))))"
      by (simp add: flat_all_arrays)
  qed
  with first other show ?thesis by blast
qed

text \<open>The pages \<open>[[1,2],[3]]\<close> become \<open>[1,2,3]\<close>, and \<open>[]\<close> stays \<open>[]\<close>.\<close>

theorem paginated_flatten_witness:
  "fst (ghApi (gh_prints (JsonText (JArray [JArray [JNumber 1, JNumber 2], JArray [JNumber 3]]))) [] list_labels_call)
     = Inr (JsonText (JArray [JNumber 1, JNumber 2, JNumber 3]))
   \<and> fst (ghApi (gh_prints (JsonText (JArray []))) [] list_labels_call) = Inr (JsonText (JArray []))"
  using paginated_flatten [of list_labels_call
      "gh_prints (JsonText (JArray [JArray [JNumber 1, JNumber 2], JArray [JNumber 3]]))" "[]"
      "JArray [JArray [JNumber 1, JNumber 2], JArray [JNumber 3]]"]
    paginated_flatten [of list_labels_call "gh_prints (JsonText (JArray []))" "[]" "JArray []"]
  by (simp add: gh_prints_def list_labels_call_def is_array_def items_def)

text \<open>
  Against claim C7 as it is worded: \<open>[[1],2]\<close> is not an array of arrays, its second element
  being a number, and yet the text is not returned as it came but flattened to \<open>[1,2]\<close>.
\<close>

theorem mixed_pages_counterexample:
  "fst (ghApi (gh_prints (JsonText (JArray [JArray [JNumber 1], JNumber 2]))) [] list_labels_call)
     = Inr (JsonText (JArray [JNumber 1, JNumber 2]))
   \<and> \<not> is_array (JNumber 2)
   \<and> fst (ghApi (gh_prints (JsonText (JArray [JArray [JNumber 1], JNumber 2]))) [] list_labels_call)
     \<noteq> Inr (JsonText (JArray [JArray [JNumber 1], JNumber 2]))"
  by (simp add: ghApi_def gh_prints_def list_labels_call_def is_array_def flat_def)


section \<open>No deletion of labels\<close>

text \<open>
  Claim C8. Every call of the label apply phase is a \<open>POST\<close> or a \<open>PATCH\<close> made for a label
  of the desired configuration; none is a \<open>DELETE\<close>, so none is the call that
  \<open>deleteLabel\<close> would make for any label name \<open>n\<close>, whatever the remote label set and the
  classification are.
\<close>

theorem labels_never_deleted:
  "\<forall>c \<in> set (snd (labels_sync toLowerCase gh repo desiredLabels existingLabels confirmed)).
      (httpMethod c = ''POST'' \<or> httpMethod c = ''PATCH'') \<and> httpMethod c \<noteq> ''DELETE''
      \<and> c \<noteq> deleteLabel_call repo n
      \<and> (\<exists>l \<in> set desiredLabels. c = label_create_call repo l \<or> c = label_update_call repo l)"
proof
  fix c
  assume c: "c \<in> set (snd (labels_sync toLowerCase gh repo desiredLabels existingLabels confirmed))"
  from c labels_sync_calls [of toLowerCase gh repo desiredLabels existingLabels confirmed]
    labels_diff_subset [of toLowerCase desiredLabels existingLabels]
  obtain l where l: "l \<in> set desiredLabels" and cl: "c = label_create_call repo l \<or> c = label_update_call repo l"
    by blast
  from cl have m: "httpMethod c = ''POST'' \<or> httpMethod c = ''PATCH''" by (auto simp: label_call_shapes)
  then have nd: "httpMethod c \<noteq> ''DELETE''" by auto
  have "httpMethod (deleteLabel_call repo n) = ''DELETE''" by (simp add: deleteLabel_call_def)
  with nd have "c \<noteq> deleteLabel_call repo n" by auto
  with m nd l cl show "(httpMethod c = ''POST'' \<or> httpMethod c = ''PATCH'') \<and> httpMethod c \<noteq> ''DELETE''
      \<and> c \<noteq> deleteLabel_call repo n
      \<and> (\<exists>l \<in> set desiredLabels. c = label_create_call repo l \<or> c = label_update_call repo l)"
    by blast
qed

text \<open>
  The remote label \<open>wontfix\<close> is absent from the desired configuration: the only call made
  is not a \<open>DELETE\<close> and is not the deletion of \<open>wontfix\<close>.
\<close>

theorem labels_never_deleted_witness:
  "httpMethod \<lparr>httpMethod = ''PATCH'', endpoint = ''/repos/o/r/labels/Bug'',
       body = Some [(''color'', JString ''D73A4A''), (''description'', JString [])], paginate = False\<rparr> \<noteq> ''DELETE''
   \<and> \<lparr>httpMethod = ''PATCH'', endpoint = ''/repos/o/r/labels/Bug'',
       body = Some [(''color'', JString ''D73A4A''), (''description'', JString [])], paginate = False\<rparr>
      \<noteq> deleteLabel_call ''o/r'' ''wontfix''"
  using labels_never_deleted [of toLowerCase_ascii gh_ok "''o/r''"
      "[\<lparr>name = ''Bug'', color = ''#D73A4A'', description = None\<rparr>]"
      "[\<lparr>name = ''bug'', color = ''d73a4a'', description = None\<rparr>,
        \<lparr>name = ''wontfix'', color = ''ffffff'', description = None\<rparr>]" True "''wontfix''"]
  by (simp add: example_label_sync)


section \<open>Duplicate due dates among the remote milestones\<close>

lemma warning_names:
  "contains k (duplicate_warning k m p)"
  "contains (''#'' @ String_int (number m)) (duplicate_warning k m p)"
  "contains (title m) (duplicate_warning k m p)"
  "contains (''#'' @ String_int p) (duplicate_warning k m p)"
proof -
  show "contains k (duplicate_warning k m p)"
    using contains_middle [of k "''Duplicate due_on date ''"
        "'': milestone #'' @ String_int (number m) @ '' ('' @ [CHR 0x22] @ title m @ [CHR 0x22]
          @ '') overwrites #'' @ String_int p"]
    by (simp add: duplicate_warning_def)
  show "contains (''#'' @ String_int (number m)) (duplicate_warning k m p)"
    using contains_middle [of "''#'' @ String_int (number m)" "''Duplicate due_on date '' @ k @ '': milestone ''"
        "'' ('' @ [CHR 0x22] @ title m @ [CHR 0x22] @ '') overwrites #'' @ String_int p"]
    by (simp add: duplicate_warning_def)
  show "contains (title m) (duplicate_warning k m p)"
    using contains_middle [of "title m"
        "''Duplicate due_on date '' @ k @ '': milestone #'' @ String_int (number m) @ '' ('' @ [CHR 0x22]"
        "[CHR 0x22] @ '') overwrites #'' @ String_int p"]
    by (simp add: duplicate_warning_def)
  show "contains (''#'' @ String_int p) (duplicate_warning k m p)"
    using contains_middle [of "''#'' @ String_int p"
        "''Duplicate due_on date '' @ k @ '': milestone #'' @ String_int (number m) @ '' ('' @ [CHR 0x22]
           @ title m @ [CHR 0x22] @ '') overwrites ''" "[]"]
    by (simp add: duplicate_warning_def)
qed

text \<open>
  Claim C9, as the code has it. Let \<open>a\<close> and \<open>b\<close> be remote milestones with the same date
  key \<open>k\<close> (the first ten characters of a non-empty \<open>due_on\<close>), \<open>b\<close> enumerated after
  \<open>a\<close> with no milestone of that key between them. Then a warning is emitted that names the key,
  the number and the title of \<open>b\<close>, and the number of \<open>a\<close>; the index keeps numbers only, so
  the title of \<open>a\<close> is not in it. If no later milestone has the key, the index maps the key
  to the number of \<open>b\<close>: the later one wins.
\<close>

theorem duplicate_due_dates:
  assumes "date_key a = Some k" and "date_key b = Some k" and "\<forall>m \<in> set ys. date_key m \<noteq> Some k"
  shows "duplicate_warning k b (number a) \<in> set (snd (index_milestones (xs @ [a] @ ys @ [b] @ zs)))
     \<and> contains k (duplicate_warning k b (number a))
     \<and> contains (''#'' @ String_int (number b)) (duplicate_warning k b (number a))
     \<and> contains (title b) (duplicate_warning k b (number a))
     \<and> contains (''#'' @ String_int (number a)) (duplicate_warning k b (number a))
     \<and> ((\<forall>m \<in> set zs. date_key m \<noteq> Some k)
          \<longrightarrow> fst (index_milestones (xs @ [a] @ ys @ [b] @ zs)) k = Some (number b))"
proof -
  have "(\<forall>m \<in> set zs. date_key m \<noteq> Some k)
          \<longrightarrow> fst (index_milestones (xs @ [a] @ ys @ [b] @ zs)) k = Some (number b)"
    using index_last [of b k zs "xs @ [a] @ ys"] assms(2) by simp
  with index_warning [OF assms, of xs zs] warning_names [where k = k and m = b and p = "number a"] show ?thesis by blast
qed

text \<open>Sprint A (number 1) and Sprint B (number 2), both due on 2026-01-10.\<close>

theorem duplicate_due_dates_witness:
  "duplicate_warning ''2026-01-10'' sprint_b 1 \<in> set (snd (index_milestones [sprint_a, sprint_b]))
   \<and> contains ''Sprint B'' (duplicate_warning ''2026-01-10'' sprint_b 1)
   \<and> fst (index_milestones [sprint_a, sprint_b]) ''2026-01-10'' = Some 2"
proof -
  have ka: "date_key sprint_a = Some ''2026-01-10''" and kb: "date_key sprint_b = Some ''2026-01-10''"
    by (simp_all add: date_key_def sprint_a_def sprint_b_def)
  have none: "\<forall>m \<in> set []. date_key m \<noteq> Some ''2026-01-10''" by simp
  have na: "number sprint_a = 1" and nb: "number sprint_b = 2" and tb: "title sprint_b = ''Sprint B''"
    by (simp_all add: sprint_a_def sprint_b_def)
  from duplicate_due_dates [OF ka kb none, of "[]" "[]"] show ?thesis
    by (simp add: na nb tb)
qed

text \<open>
  Against claim C9 as it is worded: the one warning for Sprint A and Sprint B does not contain
  the title of the milestone that lost its place.
\<close>

theorem earlier_title_counterexample:
  "snd (index_milestones [sprint_a, sprint_b]) = [duplicate_warning ''2026-01-10'' sprint_b 1]
   \<and> \<not> contains ''Sprint A'' (duplicate_warning ''2026-01-10'' sprint_b 1)"
  by code_simp


section \<open>Requests of the label update\<close>

text \<open>
  Claim C10. Every \<open>PATCH\<close> call of the label command carries a body with the two fields
  \<open>color\<close> and \<open>description\<close> and no \<open>name\<close> field: it belongs to a label of the update list,
  addresses it by the desired name in the path, and sends the desired colour without its
  \<open>#\<close> and the desired description. When the user confirms, every label of the update list
  gets such a call. An update therefore never asks for a rename.
\<close>

theorem label_update_body:
  "(\<forall>c \<in> set (snd (labels_sync toLowerCase gh repo desiredLabels existingLabels confirmed)).
      httpMethod c = ''PATCH'' \<longrightarrow>
        body_keys c = [''color'', ''description''] \<and> ''name'' \<notin> set (body_keys c)
        \<and> (\<exists>l \<in> set (toUpdate (labels_diff toLowerCase desiredLabels existingLabels)).
              endpoint c = ''/repos/'' @ repo @ ''/labels/'' @ encodeURIComponent (name l)
              \<and> body c = Some [(''color'', JString (replace_leading_hash (color l))),
                                (''description'', JString (nullish (description l)))]))
   \<and> (confirmed \<longrightarrow>
        (\<forall>l \<in> set (toUpdate (labels_diff toLowerCase desiredLabels existingLabels)).
           label_update_call repo l \<in> set (snd (labels_sync toLowerCase gh repo desiredLabels existingLabels confirmed))
           \<and> httpMethod (label_update_call repo l) = ''PATCH''))"
proof (intro conjI ballI impI)
  fix c
  assume c: "c \<in> set (snd (labels_sync toLowerCase gh repo desiredLabels existingLabels confirmed))"
    and patch: "httpMethod c = ''PATCH''"
  from c labels_sync_calls [of toLowerCase gh repo desiredLabels existingLabels confirmed]
  consider l where "l \<in> set (toCreate (labels_diff toLowerCase desiredLabels existingLabels))" "c = label_create_call repo l"
    | l where "l \<in> set (toUpdate (labels_diff toLowerCase desiredLabels existingLabels))" "c = label_update_call repo l"
    by blast
  then have "\<exists>l \<in> set (toUpdate (labels_diff toLowerCase desiredLabels existingLabels)). c = label_update_call repo l"
  proof cases
    case 1
    with patch show ?thesis by (simp add: label_call_shapes)
  next
    case 2
    then show ?thesis by blast
  qed
  then obtain l where l: "l \<in> set (toUpdate (labels_diff toLowerCase desiredLabels existingLabels))"
    and cl: "c = label_update_call repo l" by blast
  show "body_keys c = [''color'', ''description'']" by (simp add: cl label_call_shapes)
  show "''name'' \<notin> set (body_keys c)" by (simp add: cl label_call_shapes)
  show "\<exists>l \<in> set (toUpdate (labels_diff toLowerCase desiredLabels existingLabels)).
              endpoint c = ''/repos/'' @ repo @ ''/labels/'' @ encodeURIComponent (name l)
              \<and> body c = Some [(''color'', JString (replace_leading_hash (color l))),
                                (''description'', JString (nullish (description l)))]"
    using l by (auto simp: cl label_call_shapes)
next
  fix l
  assume "confirmed" and "l \<in> set (toUpdate (labels_diff toLowerCase desiredLabels existingLabels))"
  then show "label_update_call repo l \<in> set (snd (labels_sync toLowerCase gh repo desiredLabels existingLabels confirmed))"
    by (simp add: labels_sync_confirmed)
next
  fix l
  show "httpMethod (label_update_call repo l) = ''PATCH''" by (simp add: label_call_shapes)
qed

text \<open>
  One desired label \<open>Bug\<close> that differs from the remote \<open>bug\<close> in its colour: the call made
  is a \<open>PATCH\<close> with the fields \<open>color\<close> and \<open>description\<close>.
\<close>

theorem label_update_body_witness:
  "body_keys \<lparr>httpMethod = ''PATCH'', endpoint = ''/repos/o/r/labels/Bug'',
       body = Some [(''color'', JString ''D73A4A''), (''description'', JString [])], paginate = False\<rparr>
     = [''color'', ''description'']
   \<and> ''name'' \<notin> set (body_keys \<lparr>httpMethod = ''PATCH'', endpoint = ''/repos/o/r/labels/Bug'',
       body = Some [(''color'', JString ''D73A4A''), (''description'', JString [])], paginate = False\<rparr>)"
  using label_update_body [of toLowerCase_ascii gh_ok "''o/r''"
      "[\<lparr>name = ''Bug'', color = ''#D73A4A'', description = None\<rparr>]"
      "[\<lparr>name = ''bug'', color = ''d73a4a'', description = None\<rparr>,
        \<lparr>name = ''wontfix'', color = ''ffffff'', description = None\<rparr>]" True]
  by (simp add: example_label_sync)


end
